theory Spec2Isabelle
  imports Complex_Main "HOL-Library.Multiset"
begin

section \<open>Values shown by the explorer\<close>

text \<open>
  The tables of \<^verbatim>\<open>mainwindow.cpp\<close> store C++ \<^verbatim>\<open>double\<close> values, and the product
  table adds and divides them (lines 540 to 568). A double is modelled as an IEEE 754
  binary64 value with the default rounding, round to nearest with ties to even; every
  operation delivers its result rounded to binary64, with overflow to an infinity,
  gradual underflow and signed zeros.

  \<open>ilog2 a\<close> is the binary exponent of a positive real \<open>a\<close>, found by halving or
  doubling \<open>a\<close> until it lies between 1 and 2.
\<close>

function ilog2 :: "real \<Rightarrow> int" where
  "ilog2 a = (if a \<le> 0 then 0 else if 2 \<le> a then ilog2 (a / 2) + 1
              else if a < 1 then ilog2 (2 * a) - 1 else 0)"
  by pat_completeness auto
termination
proof (relation "measure (\<lambda>a. nat \<bar>\<lfloor>log 2 a\<rfloor>\<bar>)", goal_cases)
  case 1
  show ?case by simp
next
  case (2 a)
  then have "log 2 (a / 2) = log 2 a - 1" by (simp add: log_divide)
  moreover from 2 have "1 \<le> log 2 a" by (simp add: le_log_iff)
  ultimately show ?case by simp
next
  case (3 a)
  then have l: "log 2 (2 * a) = log 2 a + 1" by (simp add: log_mult)
  from 3 have "log 2 a < 0" by simp
  then have f: "\<lfloor>log 2 a\<rfloor> < 0" by (simp add: floor_less_iff)
  from l have "\<lfloor>log 2 (2 * a)\<rfloor> = \<lfloor>log 2 a\<rfloor> + 1" by simp
  with f have "nat \<bar>\<lfloor>log 2 (2 * a)\<rfloor>\<bar> < nat \<bar>\<lfloor>log 2 a\<rfloor>\<bar>" by linarith
  then show ?case by (simp only: in_measure)
qed

text \<open>
  \<open>rne\<close> rounds a real to the nearest integer, a tie to the even one. \<open>quantum a\<close> is
  the distance between neighbouring binary64 values at the magnitude \<open>a\<close>: 52 fraction
  bits below the binary exponent, and \<open>2 powi (- 1074)\<close> throughout the subnormal range,
  where the exponent stays at its minimum - 1022. \<open>rv r\<close> is \<open>r\<close> rounded to the nearest
  multiple of its quantum, with no bound on the exponent yet.
\<close>

definition rne :: "real \<Rightarrow> int" where
  "rne t = (let f = \<lfloor>t\<rfloor> in
            if t - of_int f < 1 / 2 then f
            else if 1 / 2 < t - of_int f then f + 1
            else if even f then f else f + 1)"

definition quantum :: "real \<Rightarrow> real" where
  "quantum a = 2 powi (max (ilog2 a) (- 1022) - 52)"

definition rv :: "real \<Rightarrow> real" where
  "rv r = of_int (rne (r / quantum \<bar>r\<bar>)) * quantum \<bar>r\<bar>"

text \<open>
  The finite binary64 values: the rounded reals of magnitude below \<open>2 ^ 1024\<close>. The type
  has the zero and the order of the reals it contains. The sign of a zero is kept in
  \<open>double\<close>: \<open>Finite 0\<close> is \<^verbatim>\<open>+0.0\<close> and \<open>NegZero\<close> is \<^verbatim>\<open>-0.0\<close>.
\<close>

typedef binary64 = "{x :: real. (\<exists>r. x = rv r) \<and> \<bar>x\<bar> < 2 ^ 1024}"
proof
  have "rv 0 = 0" by (simp add: rv_def rne_def)
  then show "0 \<in> {x :: real. (\<exists>r. x = rv r) \<and> \<bar>x\<bar> < 2 ^ 1024}"
    by (auto intro: exI [of _ 0])
qed

instantiation binary64 :: "{zero, ord}"
begin

definition zero_binary64 :: binary64 where
  "zero_binary64 = Abs_binary64 0"

definition less_eq_binary64 :: "binary64 \<Rightarrow> binary64 \<Rightarrow> bool" where
  "less_eq_binary64 x y \<longleftrightarrow> Rep_binary64 x \<le> Rep_binary64 y"

definition less_binary64 :: "binary64 \<Rightarrow> binary64 \<Rightarrow> bool" where
  "less_binary64 x y \<longleftrightarrow> Rep_binary64 x < Rep_binary64 y"

instance ..

end

datatype double = Finite binary64 | NegZero | PosInf | NegInf | NaN

text \<open>
  \<open>round64 r\<close> is the double that an operation with the exact result \<open>r\<close> delivers: the
  rounded value, an infinity when the rounded magnitude reaches \<open>2 ^ 1024\<close> (overflow),
  and a zero with the sign of \<open>r\<close> when \<open>r\<close> rounds to zero (underflow). \<open>dbl r\<close> is the
  double written as the literal \<open>r\<close> in a program text.
\<close>

definition round64 :: "real \<Rightarrow> double" where
  "round64 r =
     (if 2 ^ 1024 \<le> \<bar>rv r\<bar> then (if 0 < r then PosInf else NegInf)
      else if rv r = 0 \<and> r < 0 then NegZero
      else Finite (Abs_binary64 (rv r)))"

definition dbl :: "real \<Rightarrow> double" where
  "dbl r = round64 r"

text \<open>
  \<open>dadd\<close> is \<^verbatim>\<open>+\<close> of IEEE 754: not-a-number is contagious, the two infinities add up to
  not-a-number, an infinity absorbs every finite value, \<^verbatim>\<open>-0.0\<close> is neutral, and the sum
  of two finite values is their exact sum rounded, \<^verbatim>\<open>+0.0\<close> when the exact sum is zero.
\<close>

fun dadd :: "double \<Rightarrow> double \<Rightarrow> double" where
  "dadd (Finite x) (Finite y) = round64 (Rep_binary64 x + Rep_binary64 y)"
| "dadd NaN b = NaN"
| "dadd a NaN = NaN"
| "dadd PosInf NegInf = NaN"
| "dadd NegInf PosInf = NaN"
| "dadd PosInf b = PosInf"
| "dadd a PosInf = PosInf"
| "dadd NegInf b = NegInf"
| "dadd a NegInf = NegInf"
| "dadd NegZero b = b"
| "dadd a NegZero = a"

fun is_zero :: "double \<Rightarrow> bool" where
  "is_zero (Finite x) = (Rep_binary64 x = 0)"
| "is_zero NegZero = True"
| "is_zero d = False"

fun is_inf :: "double \<Rightarrow> bool" where
  "is_inf PosInf = True"
| "is_inf NegInf = True"
| "is_inf d = False"

fun negative :: "double \<Rightarrow> bool" where
  "negative (Finite x) = (Rep_binary64 x < 0)"
| "negative NegZero = True"
| "negative NegInf = True"
| "negative d = False"

fun finite_value :: "double \<Rightarrow> real" where
  "finite_value (Finite x) = Rep_binary64 x"
| "finite_value d = 0"

text \<open>
  \<open>ddiv\<close> is \<^verbatim>\<open>/\<close> of IEEE 754. A division never faults: \<^verbatim>\<open>0.0 / 0.0\<close> and the quotient
  of two infinities are not-a-number, a non-zero value divided by a zero is an infinity,
  a finite value divided by an infinity is a zero, each with the sign of the exact
  quotient, and the quotient of two finite non-zero values is their exact quotient
  rounded.
\<close>

definition ddiv :: "double \<Rightarrow> double \<Rightarrow> double" where
  "ddiv a b =
     (if a = NaN \<or> b = NaN then NaN
      else if is_inf a \<and> is_inf b then NaN
      else if is_zero a \<and> is_zero b then NaN
      else if is_inf a \<or> is_zero b
        then (if negative a \<noteq> negative b then NegInf else PosInf)
      else if is_zero a \<or> is_inf b
        then (if negative a \<noteq> negative b then NegZero else Finite 0)
      else round64 (finite_value a / finite_value b))"

text \<open>
  A \<^verbatim>\<open>QString\<close> built by \<^verbatim>\<open>tr("...%1").arg(x)\<close> is kept as the format with its
  argument (\<open>QArg\<close>), so that no number formatting of Qt has to be modelled; a
  \<^verbatim>\<open>QVariant\<close> is the tagged union of the value kinds the tables store.
\<close>

datatype qarg = ANat nat | ADouble double | AStr string

datatype qstring = QStr string | QArg string qarg

datatype qvariant = VString qstring | VInt int | VDouble double

section \<open>The model and the analysis results\<close>

text \<open>
  Modelled from the spec: the classes of \<^verbatim>\<open>mef\<close> and \<^verbatim>\<open>core\<close>, which are
  declared outside \<^verbatim>\<open>mainwindow.cpp\<close>. The records follow the data model of the spec
  (section 3) and have the members that \<^verbatim>\<open>mainwindow.cpp\<close> reads; the factor bundle
  of an importance record is the one of the spec: occurrence count, probability, MIF,
  CIF, DIF, RAW, RRW. A pointer or reference to a gate or to an event is modelled by the
  object it designates.
\<close>

datatype gate = Gate (gate_id: string) (gate_args: "string list")

record fault_tree =
  ft_name :: string
  top_events :: "gate list"

record basic_event =
  be_id :: string
  HasExpression :: bool
  be_p :: double
  be_label :: string

record model =
  mdl_name :: string
  fault_trees :: "fault_tree list"
  gates :: "gate list"
  basic_events :: "basic_event list"

record literal =
  complement :: bool
  lit_event :: basic_event

record product =
  literals :: "literal list"
  prod_order :: int
  prod_p :: double

record importance_factors =
  occurrence :: int
  probability :: double
  mif :: double
  cif :: double
  dif :: double
  raw :: double
  rrw :: double

record importance_record =
  ir_event :: basic_event
  factors :: importance_factors

datatype result_id = GateTarget gate | SequenceTarget string string

record result =
  res_id :: result_id
  fault_tree_analysis :: "product list option"
  probability_analysis :: "double option"
  importance_analysis :: "importance_record list option"

type_synonym risk_analysis = "result list"

section \<open>The diagram builder\<close>

text \<open>
  The gate graph of a model: the children of a gate identity are the arguments of the
  gate of that identity in the model's gate table (none when the table has no such gate).
\<close>

definition gate_children :: "gate list \<Rightarrow> string \<Rightarrow> string list" where
  "gate_children gs x =
     (case find (\<lambda>g. gate_id g = x) gs of None \<Rightarrow> [] | Some g \<Rightarrow> gate_args g)"

text \<open>
  A scene under construction: the visual nodes in the order of their construction (node
  \<open>k\<close> displays the gate \<open>sc_nodes ! k\<close>), the parent-child links between visual
  nodes, and the transfer map from a gate identity to its visual node
  (\<^verbatim>\<open>std::unordered_map<const mef::Gate *, diagram::Gate *> transfer\<close>, line 457).
\<close>

record scene =
  sc_nodes :: "string list"
  sc_links :: "(nat \<times> nat) list"
  sc_transfer :: "string \<rightharpoonup> nat"

text \<open>
  Modelled from the spec: the constructor \<^verbatim>\<open>diagram::Gate(gate, &transfer)\<close>, which
  \<^verbatim>\<open>mainwindow.cpp\<close> calls at line 458 and which is defined outside that file. The
  spec (4.2): on visiting a gate, if its identity is present in the map, link the
  existing visual node as a child rather than recursing again; otherwise construct a new
  visual node, insert it into the map before recursing into children, then recurse.
  The recursion is written with its pending visits explicit: \<open>expand gs pending sc\<close>
  performs the visits \<open>(parent node, gate)\<close> of \<open>pending\<close> from left to right, and the
  visit of a new gate puts the visits of its children in front of the remaining ones,
  which is the order of the recursive descent. A guard against true cycles is not part
  of the algorithm (the spec, section 9, notes that the source has none): a gate that is
  met again is linked, whether it is shared or lies on a cycle.
\<close>

function expand :: "gate list \<Rightarrow> (nat \<times> string) list \<Rightarrow> scene \<Rightarrow> scene" where
  "expand gs [] sc = sc"
| "expand gs ((parent, x) # pending) sc =
     (case sc_transfer sc x of
        Some n \<Rightarrow> expand gs pending (sc\<lparr>sc_links := sc_links sc @ [(parent, n)]\<rparr>)
      | None \<Rightarrow>
          expand gs (map (Pair (length (sc_nodes sc))) (gate_children gs x) @ pending)
            (sc\<lparr>sc_nodes := sc_nodes sc @ [x],
                sc_transfer := (sc_transfer sc)(x \<mapsto> length (sc_nodes sc)),
                sc_links := sc_links sc @ [(parent, length (sc_nodes sc))]\<rparr>))"
  by pat_completeness auto

termination expand
proof (relation "inv_image (less_than <*lex*> less_than)
         (\<lambda>(gs, pending, sc). (card (gate_id ` set gs - dom (sc_transfer sc)), length pending))",
       goal_cases)
  case 1
  show ?case by (intro wf_inv_image wf_lex_prod wf_less_than)
next
  case (2 gs parent x pending sc)
  show ?case
  proof (cases "x \<in> gate_id ` set gs")
    case True
    from 2 have "x \<notin> dom (sc_transfer sc)" by (simp add: domIff)
    with True have "gate_id ` set gs - insert x (dom (sc_transfer sc))
        \<subset> gate_id ` set gs - dom (sc_transfer sc)"
      by auto
    then have "card (gate_id ` set gs - insert x (dom (sc_transfer sc)))
        < card (gate_id ` set gs - dom (sc_transfer sc))"
      by (intro psubset_card_mono) simp_all
    then show ?thesis by simp
  next
    case False
    then have "gate_children gs x = []"
      by (auto simp: gate_children_def find_Some_iff split: option.splits)
    moreover from False have "gate_id ` set gs - insert x (dom (sc_transfer sc))
        = gate_id ` set gs - dom (sc_transfer sc)"
      by auto
    ultimately show ?thesis by simp
  qed
next
  case (3 gs parent x pending sc n)
  then show ?case by simp
qed

text \<open>
  Modelled from the spec: the visit of the root gate by the same constructor. The root is
  visited with the empty transfer map that the caller creates (line 457), so it gets the
  first visual node and enters the map, and the visits of its children are the first
  pending visits.
\<close>

definition build :: "gate list \<Rightarrow> string \<Rightarrow> scene" where
  "build gs rootGate =
     expand gs (map (Pair 0) (gate_children gs rootGate))
       \<lparr>sc_nodes = [rootGate], sc_links = [], sc_transfer = [rootGate \<mapsto> 0]\<rparr>"

text \<open>
  The gates reachable from a root through child references, the parent-child
  relationships of a list of gates (one pair for each reference of a parent to a child),
  and the links of a scene read as pairs of gates.
\<close>

definition reachable :: "gate list \<Rightarrow> string \<Rightarrow> string set" where
  "reachable gs r = {y. (r, y) \<in> {(x, c). c \<in> set (gate_children gs x)}\<^sup>*}"

definition relationships :: "gate list \<Rightarrow> string list \<Rightarrow> (string \<times> string) list" where
  "relationships gs xs = concat (map (\<lambda>x. map (Pair x) (gate_children gs x)) xs)"

definition link_gates :: "scene \<Rightarrow> (string \<times> string) list" where
  "link_gates sc = map (\<lambda>(a, b). (sc_nodes sc ! a, sc_nodes sc ! b)) (sc_links sc)"

text \<open>
  A gate is top-level in a model when no gate of the model has it as an argument.
\<close>

definition parentless :: "gate list \<Rightarrow> string \<Rightarrow> bool" where
  "parentless gs y \<longleftrightarrow> list_all (\<lambda>g. y \<notin> set (gate_args g)) gs"

text \<open>
  The invariant of \<open>expand\<close>: the nodes are distinct and are exactly the gates of the
  transfer map, pending visits and links refer to existing nodes, every relationship of
  a gate that has a node is either a link or a pending visit, and the nodes are reachable
  from the root, which has a node.
\<close>

definition pending_gates :: "scene \<Rightarrow> (nat \<times> string) list \<Rightarrow> (string \<times> string) list" where
  "pending_gates sc pending = map (\<lambda>(a, c). (sc_nodes sc ! a, c)) pending"

definition expanding :: "gate list \<Rightarrow> string \<Rightarrow> (nat \<times> string) list \<Rightarrow> scene \<Rightarrow> bool" where
  "expanding gs r pending sc \<longleftrightarrow>
     distinct (sc_nodes sc) \<and>
     (\<forall>x n. sc_transfer sc x = Some n \<longleftrightarrow> n < length (sc_nodes sc) \<and> sc_nodes sc ! n = x) \<and>
     (\<forall>(a, c) \<in> set pending. a < length (sc_nodes sc)) \<and>
     (\<forall>(a, b) \<in> set (sc_links sc). a < length (sc_nodes sc) \<and> b < length (sc_nodes sc)) \<and>
     mset (link_gates sc) + mset (pending_gates sc pending) = mset (relationships gs (sc_nodes sc)) \<and>
     r \<in> set (sc_nodes sc) \<and> set (sc_nodes sc) \<subseteq> reachable gs r"

section \<open>Widgets\<close>

text \<open>
  A \<^verbatim>\<open>QTreeWidgetItem *\<close> is modelled by the number of its allocation (\<open>nextItem\<close> of
  the window counts the allocations), so two items never share an identity. A tree widget
  stores its items with their text and children; \<^verbatim>\<open>clear()\<close> deletes them all.
\<close>

type_synonym item = nat

record tree_item =
  item_text :: qstring
  item_children :: "item list"

record tree_widget =
  headerLabel :: qstring
  topLevelItems :: "item list"
  tree_items :: "item \<rightharpoonup> tree_item"

definition clear :: "tree_widget \<Rightarrow> tree_widget" where
  "clear tw = tw\<lparr>topLevelItems := [], tree_items := Map.empty\<rparr>"

definition newTreeItem :: "qstring \<Rightarrow> item \<Rightarrow> tree_widget \<Rightarrow> tree_widget" where
  "newTreeItem txt i tw =
     tw\<lparr>tree_items := (tree_items tw)(i \<mapsto> \<lparr>item_text = txt, item_children = []\<rparr>)\<rparr>"

definition addChild :: "item \<Rightarrow> item \<Rightarrow> tree_widget \<Rightarrow> tree_widget" where
  "addChild p c tw =
     (case tree_items tw p of
        None \<Rightarrow> tw
      | Some it \<Rightarrow>
          tw\<lparr>tree_items := (tree_items tw)(p \<mapsto> it\<lparr>item_children := item_children it @ [c]\<rparr>)\<rparr>)"

definition addTopLevelItem :: "item \<Rightarrow> tree_widget \<Rightarrow> tree_widget" where
  "addTopLevelItem i tw = tw\<lparr>topLevelItems := topLevelItems tw @ [i]\<rparr>"

text \<open>\<^verbatim>\<open>std::unordered_map::emplace\<close> keeps an entry that is already there.\<close>

definition emplace :: "'k \<Rightarrow> 'v \<Rightarrow> ('k \<rightharpoonup> 'v) \<Rightarrow> ('k \<rightharpoonup> 'v)" where
  "emplace k v m = (case m k of None \<Rightarrow> m(k \<mapsto> v) | Some old \<Rightarrow> m)"

text \<open>
  A \<^verbatim>\<open>QTableWidget\<close>: \<^verbatim>\<open>setItem\<close> outside the table's rows and columns is ignored
  by Qt. The cells are the ones the builder writes; the interactive sorting that the
  view offers once \<open>sortingEnabled\<close> is set is not modelled.
\<close>

record table_widget =
  columnCount :: nat
  horizontalHeaderLabels :: "string list"
  rowCount :: nat
  table_items :: "nat \<times> nat \<rightharpoonup> qvariant"
  wordWrap :: bool
  sortingEnabled :: bool

definition newTable :: table_widget where
  "newTable = \<lparr>columnCount = 0, horizontalHeaderLabels = [], rowCount = 0,
     table_items = Map.empty, wordWrap = True, sortingEnabled = False\<rparr>"

definition setItem :: "nat \<Rightarrow> nat \<Rightarrow> qvariant \<Rightarrow> table_widget \<Rightarrow> table_widget" where
  "setItem row col v t =
     (if row < rowCount t \<and> col < columnCount t
      then t\<lparr>table_items := (table_items t)((row, col) \<mapsto> v)\<rparr> else t)"

datatype widget = StartPage | TableView table_widget | DiagramView scene

record tab =
  tab_widget :: widget
  tab_label :: qstring

text \<open>
  What a navigation node materialises on activation: the registered lambdas of
  \<^verbatim>\<open>m_treeActions\<close> and \<^verbatim>\<open>m_reportActions\<close>, each with the values it captures.
\<close>

datatype action =
    FaultTreeDiagram fault_tree
  | BasicEventsTable
  | ProductsTable result string
  | ImportanceTable result string

datatype fault = NullPointer | EmptyFront

record 's main_window =
  m_model :: "model option"
  m_inputFiles :: "string list"
  m_settings :: 's
  m_analysis :: "risk_analysis option"
  treeWidget :: tree_widget
  reportTreeWidget :: tree_widget
  m_treeActions :: "item \<rightharpoonup> action"
  m_reportActions :: "item \<rightharpoonup> action"
  tabWidget :: "tab list"
  currentIndex :: int
  actionSaveEnabled :: bool
  actionSaveAsEnabled :: bool
  configChanged :: nat
  messages :: "(string \<times> string) list"
  assertions :: "string list"
  nextItem :: item

text \<open>
  \<^verbatim>\<open>QMessageBox::critical(this, title, text)\<close> blocks until the user closes it; the
  boxes shown are recorded in \<open>messages\<close>, and the emissions of the signal
  \<^verbatim>\<open>configChanged\<close> are counted.
\<close>

definition critical :: "string \<Rightarrow> string \<Rightarrow> 's main_window \<Rightarrow> 's main_window" where
  "critical title what st = st\<lparr>messages := messages st @ [(title, what)]\<rparr>"

definition addTab :: "widget \<Rightarrow> qstring \<Rightarrow> 's main_window \<Rightarrow> 's main_window" where
  "addTab w label st =
     st\<lparr>tabWidget := tabWidget st @ [\<lparr>tab_widget = w, tab_label = label\<rparr>],
        currentIndex := (if tabWidget st = [] then 0 else currentIndex st)\<rparr>"

definition setCurrentIndex :: "int \<Rightarrow> 's main_window \<Rightarrow> 's main_window" where
  "setCurrentIndex i st = st\<lparr>currentIndex := i\<rparr>"

section \<open>Detail tables\<close>

text \<open>
  The product column joins the literals of a product with a dot operator, a complemented
  literal being marked with a negation sign (both written here as their UTF-8 bytes).
\<close>

definition not_sign :: string where
  "not_sign = [CHR 0xC2, CHR 0xAC]"

definition dot_separator :: string where
  "dot_separator = [CHR '' '', CHR 0xE2, CHR 0x8B, CHR 0x85, CHR '' '']"

fun join :: "string \<Rightarrow> string list \<Rightarrow> string" where
  "join sep [] = []"
| "join sep [m] = m"
| "join sep (m # ms) = m @ sep @ join sep ms"

definition members :: "product \<Rightarrow> string list" where
  "members p =
     map (\<lambda>l. (if complement l then not_sign else []) @ be_id (lit_event l)) (literals p)"

text \<open>
  The row loop of the product table (lines 553-570); \<open>psum\<close> is the variable
  \<^verbatim>\<open>sum\<close> of the source, computed before the loop.
\<close>

fun productRows :: "bool \<Rightarrow> double \<Rightarrow> product list \<Rightarrow> nat \<Rightarrow> table_widget \<Rightarrow> table_widget" where
  "productRows has_p psum [] row t = t"
| "productRows has_p psum (p # ps) row t =
     (let t1 = setItem row 0 (VString (QStr (join dot_separator (members p)))) t;
          t2 = setItem row 1 (VInt (prod_order p)) t1;
          t3 = (if has_p
                then setItem row 3 (VDouble (ddiv (prod_p p) psum))
                       (setItem row 2 (VDouble (prod_p p)) t2)
                else t2)
      in productRows has_p psum ps (Suc row) t3)"

definition productTable :: "result \<Rightarrow> product list \<Rightarrow> table_widget" where
  "productTable r products =
     (let has_p = (probability_analysis r \<noteq> None);
          t1 = (if has_p
                then newTable\<lparr>columnCount := 4,
                       horizontalHeaderLabels :=
                         [''Product'', ''Order'', ''Probability'', ''Contribution'']\<rparr>
                else newTable\<lparr>columnCount := 2,
                       horizontalHeaderLabels := [''Product'', ''Order'']\<rparr>);
          psum = (if has_p then foldl (\<lambda>acc p. dadd acc (prod_p p)) (Finite 0) products
                  else Finite 0);
          t2 = t1\<lparr>rowCount := length products\<rparr>
      in (productRows has_p psum products 0 t2)\<lparr>wordWrap := False, sortingEnabled := True\<rparr>)"

text \<open>The importance table (lines 589-624).\<close>

fun importanceRows :: "importance_record list \<Rightarrow> nat \<Rightarrow> table_widget \<Rightarrow> table_widget" where
  "importanceRows [] row t = t"
| "importanceRows (rcd # records) row t =
     importanceRows records (Suc row)
       (setItem row 7 (VDouble (rrw (factors rcd)))
       (setItem row 6 (VDouble (raw (factors rcd)))
       (setItem row 5 (VDouble (dif (factors rcd)))
       (setItem row 4 (VDouble (cif (factors rcd)))
       (setItem row 3 (VDouble (mif (factors rcd)))
       (setItem row 2 (VDouble (be_p (ir_event rcd)))
       (setItem row 1 (VInt (occurrence (factors rcd)))
       (setItem row 0 (VString (QStr (be_id (ir_event rcd)))) t))))))))"

definition importanceTable :: "importance_record list \<Rightarrow> table_widget" where
  "importanceTable records =
     (importanceRows records 0
        (newTable\<lparr>columnCount := 8,
           horizontalHeaderLabels :=
             [''Id'', ''Occurrence'', ''Probability'', ''MIF'', ''CIF'', ''DIF'', ''RAW'', ''RRW''],
           rowCount := length records\<rparr>))
     \<lparr>wordWrap := False, sortingEnabled := True\<rparr>"

text \<open>The table of basic events (lines 478-501).\<close>

fun basicEventRows :: "basic_event list \<Rightarrow> nat \<Rightarrow> table_widget \<Rightarrow> table_widget" where
  "basicEventRows [] row t = t"
| "basicEventRows (basicEvent # events) row t =
     basicEventRows events (Suc row)
       (setItem row 2 (VString (QStr (be_label basicEvent)))
       (setItem row 1 (if HasExpression basicEvent then VDouble (be_p basicEvent)
                       else VString (QStr ''NULL''))
       (setItem row 0 (VString (QStr (be_id basicEvent))) t)))"

definition basicEventsTable :: "basic_event list \<Rightarrow> table_widget" where
  "basicEventsTable events =
     (basicEventRows events 0
        (newTable\<lparr>columnCount := 3,
           horizontalHeaderLabels := [''Id'', ''Probability'', ''Label''],
           rowCount := length events\<rparr>))
     \<lparr>wordWrap := False, sortingEnabled := True\<rparr>"

section \<open>Activation of a navigation node\<close>

definition showTab :: "widget \<Rightarrow> qstring \<Rightarrow> 's main_window \<Rightarrow> 's main_window" where
  "showTab w label st =
     setCurrentIndex (int (length (tabWidget st))) (addTab w label st)"

text \<open>
  The registered lambdas. The diagram action (lines 455-472) takes
  \<^verbatim>\<open>top_events().front()\<close>, which is undefined on an empty list; the table actions
  dereference the sub-result they show. The gates that the root refers to are resolved in
  the gate table of the window's model: that is the model the fault tree belongs to, since
  every change of the model clears the registered actions first (\<open>resetTreeWidget\<close>).
\<close>

fun runAction :: "action \<Rightarrow> 's main_window \<Rightarrow> fault + 's main_window" where
  "runAction (FaultTreeDiagram faultTree) st =
     (case m_model st of
        None \<Rightarrow> Inl NullPointer
      | Some m \<Rightarrow>
          (case top_events faultTree of
             [] \<Rightarrow> Inl EmptyFront
           | front # others \<Rightarrow>
               Inr (showTab (DiagramView (build (gates m) (gate_id front)))
                      (QArg ''Fault Tree: %1'' (AStr (ft_name faultTree))) st)))"
| "runAction BasicEventsTable st =
     (case m_model st of
        None \<Rightarrow> Inl NullPointer
      | Some m \<Rightarrow> Inr (showTab (TableView (basicEventsTable (basic_events m)))
                        (QStr ''Basic Events'') st))"
| "runAction (ProductsTable r name) st =
     (case fault_tree_analysis r of
        None \<Rightarrow> Inl NullPointer
      | Some products \<Rightarrow>
          Inr (showTab (TableView (productTable r products))
                 (QArg ''Products: %1'' (AStr name)) st))"
| "runAction (ImportanceTable r name) st =
     (case importance_analysis r of
        None \<Rightarrow> Inl NullPointer
      | Some records \<Rightarrow>
          Inr (showTab (TableView (importanceTable records))
                 (QArg ''Importance: %1'' (AStr name)) st))"

text \<open>
  The handlers of \<^verbatim>\<open>itemActivated\<close> (lines 148-157): an item without a registered
  action is inert.
\<close>

definition treeItemActivated :: "item \<Rightarrow> 's main_window \<Rightarrow> fault + 's main_window" where
  "treeItemActivated i st =
     (case m_treeActions st i of None \<Rightarrow> Inr st | Some a \<Rightarrow> runAction a st)"

definition reportItemActivated :: "item \<Rightarrow> 's main_window \<Rightarrow> fault + 's main_window" where
  "reportItemActivated i st =
     (case m_reportActions st i of None \<Rightarrow> Inr st | Some a \<Rightarrow> runAction a st)"

text \<open>The widget of the current tab, if there is one.\<close>

definition currentWidget :: "'s main_window \<Rightarrow> widget option" where
  "currentWidget st =
     (if 0 \<le> currentIndex st \<and> nat (currentIndex st) < length (tabWidget st)
      then Some (tab_widget (tabWidget st ! nat (currentIndex st))) else None)"

text \<open>
  A placeholder is a text in the place of a number, as \<^verbatim>\<open>NULL\<close> in the table of
  basic events (line 491); a cell that holds a \<^verbatim>\<open>double\<close> is numeric, whatever the
  double.
\<close>

fun placeholder :: "qvariant \<Rightarrow> bool" where
  "placeholder (VString s) = True"
| "placeholder (VInt n) = False"
| "placeholder (VDouble d) = False"

section \<open>Rebuilding the navigation trees\<close>

text \<open>
  \<^verbatim>\<open>resetTreeWidget\<close> (lines 432-507): all tabs are closed, both registries and both
  trees are cleared, the analysis is dropped, and the model tree is rebuilt.
\<close>

fun addFaultTrees :: "item \<Rightarrow> fault_tree list \<Rightarrow> 's main_window \<Rightarrow> 's main_window" where
  "addFaultTrees faultTrees [] st = st"
| "addFaultTrees faultTrees (faultTree # rest) st =
     (let widgetItem = nextItem st in
      addFaultTrees faultTrees rest
        (st\<lparr>nextItem := Suc widgetItem,
            treeWidget := addChild faultTrees widgetItem
              (newTreeItem (QStr (ft_name faultTree)) widgetItem (treeWidget st)),
            m_treeActions := emplace widgetItem (FaultTreeDiagram faultTree) (m_treeActions st)\<rparr>))"

definition resetTreeWidget :: "'s main_window \<Rightarrow> fault + 's main_window" where
  "resetTreeWidget st =
     (case m_model st of
        None \<Rightarrow> Inl NullPointer
      | Some m \<Rightarrow>
          (let st1 = st\<lparr>tabWidget := [], currentIndex := - 1,
                 reportTreeWidget := clear (reportTreeWidget st),
                 m_reportActions := Map.empty,
                 m_analysis := None,
                 m_treeActions := Map.empty,
                 treeWidget := (clear (treeWidget st))
                   \<lparr>headerLabel := QArg ''Model: %1'' (AStr (mdl_name m))\<rparr>\<rparr>;
               faultTrees = nextItem st1;
               st2 = st1\<lparr>nextItem := Suc faultTrees,
                 treeWidget := newTreeItem (QStr ''Fault Trees'') faultTrees (treeWidget st1)\<rparr>;
               st3 = addFaultTrees faultTrees (fault_trees m) st2;
               modelData = nextItem st3;
               basicEvents = Suc modelData;
               houseEvents = Suc basicEvents;
               parameters = Suc houseEvents
           in Inr (st3\<lparr>nextItem := Suc parameters,
                 treeWidget :=
                   addTopLevelItem modelData (addTopLevelItem faultTrees
                     (addChild modelData parameters (addChild modelData houseEvents
                       (newTreeItem (QStr ''Parameters'') parameters
                         (newTreeItem (QStr ''House Events'') houseEvents
                           (addChild modelData basicEvents
                             (newTreeItem (QStr ''Basic Events'') basicEvents
                               (newTreeItem (QStr ''Model Data'') modelData
                                 (treeWidget st3))))))))),
                 m_treeActions := emplace basicEvents BasicEventsTable (m_treeActions st3)\<rparr>)))"

text \<open>
  Modelled from the spec: the macro \<^verbatim>\<open>GUI_ASSERT(cond, ret)\<close> of
  \<^verbatim>\<open>guiassert.h\<close>, which is not part of \<^verbatim>\<open>mainwindow.cpp\<close>. A violated
  assertion is a loud, assertion-style signal that ends the current operation (spec 7,
  kind 2): the failure is recorded in \<open>assertions\<close>, and the function in which the
  macro is written returns the value \<^verbatim>\<open>ret\<close> that its call site passes.
\<close>

definition assertionFailure :: "string \<Rightarrow> 's main_window \<Rightarrow> 's main_window" where
  "assertionFailure cond st = st\<lparr>assertions := assertions st @ [cond]\<rparr>"

text \<open>
  The visitor \<^verbatim>\<open>nameExtractor\<close> (lines 514-526) returns the name and, for the
  unexpected variant, the assertion that failed inside the visitor; the visitor then
  returns \<^verbatim>\<open>{}\<close>, the empty string, to the loop that called it.
\<close>

fun nameExtractor :: "result_id \<Rightarrow> string \<times> string option" where
  "nameExtractor (GateTarget g) = (gate_id g, None)"
| "nameExtractor (SequenceTarget initiatingEvent seq) =
     ([], Some ''unexpected analysis target'')"

definition addProductItem :: "result \<Rightarrow> string \<Rightarrow> item \<Rightarrow> product list \<Rightarrow>
    's main_window \<Rightarrow> 's main_window" where
  "addProductItem r name widgetItem products st =
     (let productItem = nextItem st in
      st\<lparr>nextItem := Suc productItem,
         reportTreeWidget := addChild widgetItem productItem
           (newTreeItem (QArg ''Products: %L1'' (ANat (length products))) productItem
              (reportTreeWidget st)),
         m_reportActions := emplace productItem (ProductsTable r name) (m_reportActions st)\<rparr>)"

definition addProbabilityItem :: "item \<Rightarrow> double \<Rightarrow> 's main_window \<Rightarrow> 's main_window" where
  "addProbabilityItem widgetItem p_total st =
     (let probabilityItem = nextItem st in
      st\<lparr>nextItem := Suc probabilityItem,
         reportTreeWidget := addChild widgetItem probabilityItem
           (newTreeItem (QArg ''Probability: %1'' (ADouble p_total)) probabilityItem
              (reportTreeWidget st))\<rparr>)"

definition addImportanceItem :: "result \<Rightarrow> string \<Rightarrow> item \<Rightarrow> importance_record list \<Rightarrow>
    's main_window \<Rightarrow> 's main_window" where
  "addImportanceItem r name widgetItem records st =
     (let importanceItem = nextItem st in
      st\<lparr>nextItem := Suc importanceItem,
         reportTreeWidget := addChild widgetItem importanceItem
           (newTreeItem (QArg ''Importance Factors: %L1'' (ANat (length records)))
              importanceItem (reportTreeWidget st)),
         m_reportActions :=
           emplace importanceItem (ImportanceTable r name) (m_reportActions st)\<rparr>)"

text \<open>
  The summary children of one result (lines 533-625), in the order of the source:
  products, then probability and importance if the sub-result is there.
\<close>

definition addSummaryItems :: "result \<Rightarrow> string \<Rightarrow> item \<Rightarrow> product list \<Rightarrow>
    's main_window \<Rightarrow> 's main_window" where
  "addSummaryItems r name widgetItem products st =
     (let st1 = addProductItem r name widgetItem products st;
          st2 = (case probability_analysis r of
                   None \<Rightarrow> st1
                 | Some p_total \<Rightarrow> addProbabilityItem widgetItem p_total st1)
      in case importance_analysis r of
           None \<Rightarrow> st2
         | Some records \<Rightarrow> addImportanceItem r name widgetItem records st2)"

text \<open>
  The top-level item of one result (lines 528-530): the name is extracted, a failed
  assertion of the visitor is recorded, and the item is created and added to the tree.
\<close>

definition addResultItem :: "result \<Rightarrow> 's main_window \<Rightarrow> 's main_window" where
  "addResultItem r st =
     (let st1 = (case snd (nameExtractor (res_id r)) of
                   None \<Rightarrow> st
                 | Some cond \<Rightarrow> assertionFailure cond st);
          widgetItem = nextItem st1
      in st1\<lparr>nextItem := Suc widgetItem,
           reportTreeWidget := addTopLevelItem widgetItem
             (newTreeItem (QStr (fst (nameExtractor (res_id r)))) widgetItem
                (reportTreeWidget st1))\<rparr>)"

text \<open>
  The body of the loop over the results for a result whose fault tree analysis is there:
  the item of the result, then its summary children.
\<close>

definition reportResult :: "result \<Rightarrow> product list \<Rightarrow> 's main_window \<Rightarrow> 's main_window" where
  "reportResult r products st =
     addSummaryItems r (fst (nameExtractor (res_id r))) (nextItem st) products
       (addResultItem r st)"

text \<open>
  The loop over the results (lines 527-626). \<^verbatim>\<open>GUI_ASSERT(result.fault_tree_analysis,)\<close>
  is written in the body of \<^verbatim>\<open>resetReportWidget\<close> itself, after the item of the
  result has been added to the tree, so its failure ends the whole loop.
\<close>

fun reportResults :: "result list \<Rightarrow> 's main_window \<Rightarrow> 's main_window" where
  "reportResults [] st = st"
| "reportResults (r # rs) st =
     (case fault_tree_analysis r of
        None \<Rightarrow> assertionFailure ''result.fault_tree_analysis'' (addResultItem r st)
      | Some products \<Rightarrow> reportResults rs (reportResult r products st))"

definition resetReportWidget :: "risk_analysis \<Rightarrow> 's main_window \<Rightarrow> 's main_window" where
  "resetReportWidget analysis st =
     reportResults analysis
       (st\<lparr>reportTreeWidget := clear (reportTreeWidget st),
           m_reportActions := Map.empty,
           m_analysis := Some analysis\<rparr>)"

text \<open>
  What the report tree shows for an item: its text, and for each of its children, in
  order, the text of the child and the action registered for it.
\<close>

definition reportText :: "'s main_window \<Rightarrow> item \<Rightarrow> qstring option" where
  "reportText st w = map_option item_text (tree_items (reportTreeWidget st) w)"

definition reportChildren :: "'s main_window \<Rightarrow> item \<Rightarrow> (qstring option \<times> action option) list" where
  "reportChildren st w =
     (case tree_items (reportTreeWidget st) w of
        None \<Rightarrow> []
      | Some it \<Rightarrow> map (\<lambda>c. (reportText st c, m_reportActions st c)) (item_children it))"

section \<open>Loading model files\<close>

text \<open>
  \<^verbatim>\<open>Config\<close> and \<^verbatim>\<open>mef::Initializer\<close> belong to the analysis core; they are
  parameters here. Each returns its value or throws a \<^verbatim>\<open>scram::Error\<close>, of which
  \<open>Inl\<close> carries the text of \<^verbatim>\<open>what()\<close>.
\<close>

record 's config =
  input_files :: "string list"
  settings :: 's

definition addInputFiles :: "(string list \<Rightarrow> 's \<Rightarrow> string + model) \<Rightarrow> string list \<Rightarrow>
    's main_window \<Rightarrow> fault + 's main_window" where
  "addInputFiles Initializer inputFiles st =
     (if inputFiles = [] then Inr st
      else
        (let all_input = m_inputFiles st @ inputFiles in
         case Initializer all_input (m_settings st) of
           Inl err \<Rightarrow> Inr (critical ''Initialization Error'' err st)
         | Inr m \<Rightarrow>
             (case resetTreeWidget (st\<lparr>m_model := Some m, m_inputFiles := all_input\<rparr>) of
                Inl f \<Rightarrow> Inl f
              | Inr st1 \<Rightarrow> Inr (st1\<lparr>configChanged := Suc (configChanged st1)\<rparr>))))"

definition setConfig :: "(string \<Rightarrow> string + 's config) \<Rightarrow>
    (string list \<Rightarrow> 's \<Rightarrow> string + model) \<Rightarrow> string \<Rightarrow> string list \<Rightarrow>
    's main_window \<Rightarrow> fault + 's main_window" where
  "setConfig Config Initializer configPath inputFiles st =
     (case Config configPath of
        Inl err \<Rightarrow> Inr (critical ''Configuration Error'' err st)
      | Inr config \<Rightarrow>
          (case Initializer (input_files config) (settings config) of
             Inl err \<Rightarrow> Inr (critical ''Configuration Error'' err st)
           | Inr checked \<Rightarrow>
               (case addInputFiles Initializer (input_files config @ inputFiles) st of
                  Inl f \<Rightarrow> Inl f
                | Inr st1 \<Rightarrow>
                    Inr (st1\<lparr>m_settings := settings config,
                           actionSaveEnabled := True,
                           actionSaveAsEnabled := True,
                           configChanged := Suc (configChanged st1)\<rparr>))))"

section \<open>Notions used in the proofs about the report tree\<close>

text \<open>
  No item at or beyond the allocation counter is stored in the report tree or registered;
  this holds after the two \<^verbatim>\<open>clear()\<close> calls and is kept by the loop.
\<close>

definition fresh :: "'s main_window \<Rightarrow> bool" where
  "fresh st \<longleftrightarrow>
     (\<forall>i \<ge> nextItem st. tree_items (reportTreeWidget st) i = None \<and> m_reportActions st i = None)"

text \<open>
  The summary children that the loop body adds for a result, each with the action
  registered for it.
\<close>

definition summaries :: "result \<Rightarrow> product list \<Rightarrow> (qstring option \<times> action option) list" where
  "summaries r products =
     [(Some (QArg ''Products: %L1'' (ANat (length products))),
       Some (ProductsTable r (fst (nameExtractor (res_id r)))))] @
     (case probability_analysis r of
        None \<Rightarrow> []
      | Some p_total \<Rightarrow> [(Some (QArg ''Probability: %1'' (ADouble p_total)), None)]) @
     (case importance_analysis r of
        None \<Rightarrow> []
      | Some records \<Rightarrow>
          [(Some (QArg ''Importance Factors: %L1'' (ANat (length records))),
            Some (ImportanceTable r (fst (nameExtractor (res_id r)))))])"

text \<open>
  The smallest positive double, and the doubles above zero: the positive finite ones and
  the positive infinity.
\<close>

definition min_subnormal :: real where
  "min_subnormal = 2 powi (- 1074)"

definition above_zero :: "double \<Rightarrow> bool" where
  "above_zero d \<longleftrightarrow> d = PosInf \<or> (\<exists>a. d = Finite a \<and> 0 < Rep_binary64 a)"

section \<open>Example inputs\<close>

text \<open>A window without a model, with the start page as its only tab.\<close>

definition initial :: "unit main_window" where
  "initial = \<lparr>m_model = None, m_inputFiles = [], m_settings = (),
     m_analysis = None,
     treeWidget = \<lparr>headerLabel = QStr [], topLevelItems = [], tree_items = Map.empty\<rparr>,
     reportTreeWidget = \<lparr>headerLabel = QStr [], topLevelItems = [], tree_items = Map.empty\<rparr>,
     m_treeActions = Map.empty, m_reportActions = Map.empty,
     tabWidget = [\<lparr>tab_widget = StartPage, tab_label = QStr ''Start Page''\<rparr>],
     currentIndex = 0, actionSaveEnabled = False, actionSaveAsEnabled = False,
     configChanged = 0, messages = [], assertions = [], nextItem = 0\<rparr>"

text \<open>
  A configuration reader and a model reader for the examples: one configuration file is
  missing, one names a malformed input file, and reading more than one input file at once
  reports a redefinition.
\<close>

definition Config0 :: "string \<Rightarrow> string + unit config" where
  "Config0 path =
     (if path = ''missing.xml'' then Inl ''cannot open''
      else if path = ''broken.xml'' then Inr \<lparr>input_files = [''bad.xml''], settings = ()\<rparr>
      else Inr \<lparr>input_files = [''a.xml''], settings = ()\<rparr>)"

definition Initializer0 :: "string list \<Rightarrow> unit \<Rightarrow> string + model" where
  "Initializer0 files s =
     (if ''bad.xml'' \<in> set files then Inl ''not well formed''
      else if length files > 1 then Inl ''redefinition''
      else Inr \<lparr>mdl_name = ''m'', fault_trees = [], gates = [], basic_events = []\<rparr>)"

text \<open>
  Analysis results for the examples: five products of one event each, with and without a
  probability sub-result; three products with the probabilities 0.1, 0.2 and 0.3, whose
  sum and quotients are not exact in binary64; two products of probability zero; and two
  importance records that share their factor bundle.
\<close>

definition event :: "string \<Rightarrow> real \<Rightarrow> basic_event" where
  "event name p = \<lparr>be_id = name, HasExpression = True, be_p = dbl p, be_label = []\<rparr>"

definition single :: "string \<Rightarrow> real \<Rightarrow> product" where
  "single name p =
     \<lparr>literals = [\<lparr>complement = False, lit_event = event name p\<rparr>], prod_order = 1,
      prod_p = dbl p\<rparr>"

definition productsB :: "product list" where
  "productsB = [single ''a'' (1/10), single ''b'' (2/10), single ''c'' (3/10),
                single ''d'' (2/10), single ''e'' (2/10)]"

definition resultB :: result where
  "resultB = \<lparr>res_id = GateTarget (Gate ''top'' []),
     fault_tree_analysis = Some productsB,
     probability_analysis = Some (dbl 1),
     importance_analysis = None\<rparr>"

definition resultC :: result where
  "resultC = \<lparr>res_id = GateTarget (Gate ''top'' []),
     fault_tree_analysis = Some productsB,
     probability_analysis = None,
     importance_analysis = None\<rparr>"

definition productsD :: "product list" where
  "productsD = [single ''a'' (1/10), single ''b'' (2/10), single ''c'' (3/10)]"

definition resultD :: result where
  "resultD = \<lparr>res_id = GateTarget (Gate ''top'' []),
     fault_tree_analysis = Some productsD,
     probability_analysis = Some (dbl (3/5)),
     importance_analysis = None\<rparr>"

text \<open>The double next above 0.6, the sum of the probabilities of \<open>productsD\<close>.\<close>

definition sumD :: double where
  "sumD = dbl (3/5 + 1 / 2 ^ 53)"

definition zeroProducts :: "product list" where
  "zeroProducts = [single ''a'' 0, single ''b'' 0]"

definition zeroResult :: result where
  "zeroResult = \<lparr>res_id = GateTarget (Gate ''top'' []),
     fault_tree_analysis = Some zeroProducts,
     probability_analysis = Some (Finite 0),
     importance_analysis = None\<rparr>"

definition factorsX :: importance_factors where
  "factorsX = \<lparr>occurrence = 2, probability = dbl (3/4), mif = dbl (1/2),
     cif = dbl (1/3), dif = dbl (1/4), raw = dbl 2, rrw = dbl 3\<rparr>"

definition recordA :: importance_record where
  "recordA = \<lparr>ir_event = event ''a'' (1/4), factors = factorsX\<rparr>"

definition recordB :: importance_record where
  "recordB = \<lparr>ir_event = event ''b'' (1/2), factors = factorsX\<rparr>"

definition resultI :: result where
  "resultI = \<lparr>res_id = GateTarget (Gate ''top'' []),
     fault_tree_analysis = Some productsB,
     probability_analysis = Some (dbl 1),
     importance_analysis = Some [recordA, recordB]\<rparr>"

text \<open>A result for an initiating event and a sequence, with no products.\<close>

definition sequenceResult :: result where
  "sequenceResult = \<lparr>res_id = SequenceTarget ''ie'' ''seq'',
     fault_tree_analysis = Some [],
     probability_analysis = None,
     importance_analysis = None\<rparr>"

text \<open>A result without its fault tree analysis, against the invariant of the data model.\<close>

definition missingResult :: result where
  "missingResult = \<lparr>res_id = GateTarget (Gate ''g'' []),
     fault_tree_analysis = None,
     probability_analysis = None,
     importance_analysis = None\<rparr>"

text \<open>
  A gate graph in which the gate \<open>c\<close> is shared by three parents, and the model of
  scenario A: a fault tree with two top-level gates that share the child \<open>b\<close>.
\<close>

definition shared :: "gate list" where
  "shared = [Gate ''top'' [''a'', ''b'', ''c''], Gate ''a'' [''c''], Gate ''b'' [''c''],
             Gate ''c'' []]"

definition scenarioA :: model where
  "scenarioA = \<lparr>mdl_name = ''A'',
     fault_trees = [\<lparr>ft_name = ''FT'',
                     top_events = [Gate ''root'' [''a'', ''b''], Gate ''second'' [''b'']]\<rparr>],
     gates = [Gate ''root'' [''a'', ''b''], Gate ''second'' [''b''], Gate ''a'' [],
              Gate ''b'' []],
     basic_events = []\<rparr>"

text \<open>The window after the model of scenario A has been assigned to it.\<close>

definition loaded :: "unit main_window" where
  "loaded = initial\<lparr>m_model := Some scenarioA\<rparr>"

section \<open>Arithmetic of doubles\<close>

text \<open>
  Rounding never turns a real of at least the smallest positive double into zero, and a
  positive double is at least the smallest positive one; so a sum of non-negative doubles
  is \<^verbatim>\<open>+0.0\<close> only if every summand is.
\<close>

declare ilog2.simps [simp del]

lemmas double_eval = dbl_def round64_def rv_def quantum_def rne_def Let_def ilog2.simps

lemma ilog2_lower: "0 < t \<Longrightarrow> 2 powi (ilog2 t) \<le> t"
proof (induction t rule: ilog2.induct)
  case (1 a)
  show ?case
  proof (cases "2 \<le> a")
    case True
    with 1 have "2 powi (ilog2 (a / 2)) \<le> a / 2" by simp
    moreover from True have "ilog2 a = ilog2 (a / 2) + 1" by (subst ilog2.simps) simp
    ultimately show ?thesis by (simp add: power_int_add)
  next
    case False
    show ?thesis
    proof (cases "a < 1")
      case True
      with False 1 have "2 powi (ilog2 (2 * a)) \<le> 2 * a" by simp
      moreover from True 1 have "ilog2 a = ilog2 (2 * a) - 1" by (subst ilog2.simps) simp
      ultimately show ?thesis by (simp add: power_int_diff)
    next
      case high: False
      with False have "ilog2 a = 0" by (subst ilog2.simps) simp
      with high show ?thesis by simp
    qed
  qed
qed

lemma min_subnormal_pos: "0 < min_subnormal"
  by (simp add: min_subnormal_def)

lemma quantum_pos: "0 < quantum a"
  by (simp add: quantum_def)

lemma quantum_ge: "min_subnormal \<le> quantum a"
  unfolding quantum_def min_subnormal_def by (rule power_int_increasing) simp_all

lemma quantum_le:
  assumes "min_subnormal \<le> t"
  shows "quantum t \<le> t"
proof (cases "ilog2 t \<le> - 1022")
  case True
  then have "quantum t = min_subnormal" by (simp add: quantum_def min_subnormal_def max_def)
  with assms show ?thesis by simp
next
  case False
  from assms have pos: "0 < t" using min_subnormal_pos by linarith
  from False have "quantum t = 2 powi (ilog2 t - 52)" by (simp add: quantum_def max_def)
  also have "\<dots> \<le> 2 powi (ilog2 t)" by (rule power_int_increasing) simp_all
  also from pos have "\<dots> \<le> t" by (rule ilog2_lower)
  finally show ?thesis .
qed

lemma rne_ge_1: "1 \<le> t \<Longrightarrow> 1 \<le> rne t"
  by (simp add: rne_def Let_def)

lemma rne_nonneg: "0 \<le> t \<Longrightarrow> 0 \<le> rne t"
  by (simp add: rne_def Let_def)

lemma rv_nonneg: "0 \<le> t \<Longrightarrow> 0 \<le> rv t"
  by (simp add: rv_def rne_nonneg quantum_pos less_imp_le)

lemma rv_ge_min:
  assumes "min_subnormal \<le> t"
  shows "min_subnormal \<le> rv t"
proof -
  from assms have pos: "0 < t" using min_subnormal_pos by linarith
  from assms have "quantum t \<le> t" by (rule quantum_le)
  with quantum_pos [of t] have "1 \<le> t / quantum t" by simp
  then have "1 \<le> rne (t / quantum t)" by (rule rne_ge_1)
  then have "(1 :: real) \<le> of_int (rne (t / quantum t))" by simp
  with quantum_pos [of t] have "quantum t \<le> of_int (rne (t / quantum t)) * quantum t" by simp
  with pos have "quantum t \<le> rv t" by (simp add: rv_def)
  with quantum_ge [of t] show ?thesis by simp
qed

lemma grid_positive:
  assumes "0 < rv r"
  shows "min_subnormal \<le> rv r"
proof -
  from assms quantum_pos [of "\<bar>r\<bar>"] have "0 < rne (r / quantum \<bar>r\<bar>)"
    by (simp add: rv_def zero_less_mult_iff)
  then have "(1 :: real) \<le> of_int (rne (r / quantum \<bar>r\<bar>))" by linarith
  with quantum_pos [of "\<bar>r\<bar>"] have "quantum \<bar>r\<bar> \<le> rv r" by (simp add: rv_def)
  with quantum_ge [of "\<bar>r\<bar>"] show ?thesis by simp
qed

lemma Rep_Abs_rv: "\<bar>rv r\<bar> < 2 ^ 1024 \<Longrightarrow> Rep_binary64 (Abs_binary64 (rv r)) = rv r"
  by (rule Abs_binary64_inverse) auto

lemma Rep_Abs_grid:
  "rv c = c \<Longrightarrow> \<bar>c\<bar> < 2 ^ 1024 \<Longrightarrow> Rep_binary64 (Abs_binary64 c) = c"
  using Rep_Abs_rv [of c] by simp

lemma rv_0: "rv 0 = 0"
  by (simp add: rv_def rne_def)

lemma Rep_zero: "Rep_binary64 0 = 0"
  unfolding zero_binary64_def by (rule Rep_Abs_grid) (simp_all add: rv_0)

lemma Rep_positive:
  assumes "0 < Rep_binary64 x"
  shows "min_subnormal \<le> Rep_binary64 x"
proof -
  from Rep_binary64 [of x] obtain r where "Rep_binary64 x = rv r" by auto
  with assms grid_positive [of r] show ?thesis by simp
qed

lemma Rep_eq_zero: "Rep_binary64 x = 0 \<longleftrightarrow> x = 0"
  using Rep_binary64_inject [of x 0] by (simp add: Rep_zero)

lemma round64_above:
  assumes "min_subnormal \<le> t"
  shows "above_zero (round64 t)"
proof -
  from assms have pos: "0 < t" using min_subnormal_pos by linarith
  from assms have "min_subnormal \<le> rv t" by (rule rv_ge_min)
  then have rpos: "0 < rv t" using min_subnormal_pos by linarith
  show ?thesis
  proof (cases "2 ^ 1024 \<le> \<bar>rv t\<bar>")
    case True
    with pos show ?thesis by (simp add: round64_def above_zero_def)
  next
    case False
    with rpos have "Rep_binary64 (Abs_binary64 (rv t)) = rv t" by (intro Rep_Abs_rv) simp
    with False rpos show ?thesis by (simp add: round64_def above_zero_def)
  qed
qed

lemma dadd_above:
  assumes "above_zero d" and "0 \<le> x"
  shows "above_zero (dadd d (Finite x))"
proof (cases "d = PosInf")
  case True
  then show ?thesis by (simp add: above_zero_def)
next
  case False
  with assms(1) obtain a where a: "d = Finite a" "0 < Rep_binary64 a"
    by (auto simp: above_zero_def)
  from assms(2) have "0 \<le> Rep_binary64 x" by (simp add: less_eq_binary64_def Rep_zero)
  with Rep_positive [OF a(2)] have "min_subnormal \<le> Rep_binary64 a + Rep_binary64 x" by simp
  then have "above_zero (round64 (Rep_binary64 a + Rep_binary64 x))" by (rule round64_above)
  with a show ?thesis by simp
qed

lemma round64_0: "round64 0 = Finite 0"
  by (simp add: round64_def rv_0 zero_binary64_def)

lemma dadd_zero_zero: "dadd (Finite 0) (Finite 0) = Finite 0"
  by (simp add: Rep_zero round64_0)

lemma ddiv_zero_zero: "ddiv (Finite 0) (Finite 0) = NaN"
  by (simp add: ddiv_def Rep_zero)

lemma dbl_0: "dbl 0 = Finite 0"
  by (simp add: dbl_def round64_0)

lemma zero_le_zero: "(0 :: binary64) \<le> 0"
  by (simp add: less_eq_binary64_def)

lemma ddiv_finite:
  "x \<noteq> 0 \<Longrightarrow> y \<noteq> 0 \<Longrightarrow>
   ddiv (Finite x) (Finite y) = round64 (Rep_binary64 x / Rep_binary64 y)"
  by (simp add: ddiv_def Rep_eq_zero)

lemma Abs_zero: "Abs_binary64 0 = 0"
  by (simp add: zero_binary64_def)

text \<open>
  The operations at some concrete values: a division by a zero gives an infinity with
  the sign of the quotient, a tie is rounded to the even neighbour, and two opposite
  values add up to \<^verbatim>\<open>+0.0\<close>.
\<close>

lemma double_cases:
  "ddiv (dbl 1) (Finite 0) = PosInf"
  "ddiv (dbl (- 1)) (Finite 0) = NegInf"
  "ddiv (dbl 1) NegZero = NegInf"
  "ddiv (Finite 0) (dbl (- 1)) = NegZero"
  "dadd (dbl 1) (dbl (1 / 2 ^ 53)) = dbl 1"
  "dadd (dbl 1) (dbl (3 / 2 ^ 53)) = dbl (1 + 4 / 2 ^ 53)"
  "dadd (dbl (1/4)) (dbl (- 1/4)) = Finite 0"
  by (simp_all add: ddiv_def double_eval Rep_Abs_grid Rep_zero Abs_zero)

lemma example_doubles_differ:
  "dbl (1/4) \<noteq> dbl (3/4)" "dbl (1/2) \<noteq> dbl (3/4)"
proof -
  have v: "finite_value (dbl (1/4)) = 1/4" "finite_value (dbl (1/2)) = 1/2"
    "finite_value (dbl (3/4)) = 3/4"
    by (simp_all add: double_eval Rep_Abs_grid)
  show "dbl (1/4) \<noteq> dbl (3/4)"
  proof
    assume "dbl (1/4) = dbl (3/4)"
    then have "finite_value (dbl (1/4)) = finite_value (dbl (3/4))" by simp
    then show False unfolding v by simp
  qed
  show "dbl (1/2) \<noteq> dbl (3/4)"
  proof
    assume "dbl (1/2) = dbl (3/4)"
    then have "finite_value (dbl (1/2)) = finite_value (dbl (3/4))" by simp
    then show False unfolding v by simp
  qed
qed

lemma dadd_zero_positive:
  assumes "0 \<le> x" and "x \<noteq> 0"
  shows "above_zero (dadd (Finite 0) (Finite x))"
proof -
  from assms have "0 < Rep_binary64 x"
    using Rep_eq_zero [of x] by (simp add: less_eq_binary64_def Rep_zero)
  then have "min_subnormal \<le> Rep_binary64 x" by (rule Rep_positive)
  then have "above_zero (round64 (Rep_binary64 x))" by (rule round64_above)
  then show ?thesis by (simp add: Rep_zero)
qed

lemma above_zero_foldl:
  assumes "\<forall>d \<in> set ds. \<exists>x\<ge>0. d = Finite x" and "above_zero acc"
  shows "above_zero (foldl dadd acc ds)"
  using assms
proof (induction ds arbitrary: acc)
  case Nil
  then show ?case by simp
next
  case (Cons d ds)
  from Cons.prems(1) obtain x where x: "0 \<le> x" "d = Finite x" by auto
  from Cons.prems(2) x(1) have "above_zero (dadd acc (Finite x))" by (rule dadd_above)
  with Cons.IH [of "dadd acc (Finite x)"] Cons.prems(1) x show ?case by simp
qed

lemma above_zero_not_zero: "above_zero d \<Longrightarrow> d \<noteq> Finite 0"
  by (auto simp: above_zero_def Rep_zero)

lemma zero_sum_all_zero_doubles:
  assumes "\<forall>d \<in> set ds. \<exists>x\<ge>0. d = Finite x"
    and "foldl dadd (Finite 0) ds = Finite 0"
  shows "\<forall>d \<in> set ds. d = Finite 0"
  using assms
proof (induction ds)
  case Nil
  then show ?case by simp
next
  case (Cons d ds)
  from Cons.prems(1) obtain x where x: "0 \<le> x" "d = Finite x" by auto
  from Cons.prems(1) have rest: "\<forall>d \<in> set ds. \<exists>x\<ge>0. d = Finite x" by simp
  have "x = 0"
  proof (rule ccontr)
    assume "x \<noteq> 0"
    with x(1) have "above_zero (dadd (Finite 0) (Finite x))" by (rule dadd_zero_positive)
    with rest have "above_zero (foldl dadd (dadd (Finite 0) (Finite x)) ds)"
      by (rule above_zero_foldl)
    then have "foldl dadd (dadd (Finite 0) (Finite x)) ds \<noteq> Finite 0"
      by (rule above_zero_not_zero)
    with Cons.prems(2) x(2) show False by (simp only: foldl_Cons)
  qed
  with Cons.prems(2) x(2) have "foldl dadd (Finite 0) ds = Finite 0"
    by (simp only: foldl_Cons dadd_zero_zero)
  with Cons.IH rest have "\<forall>d \<in> set ds. d = Finite 0" by simp
  with \<open>x = 0\<close> x(2) show ?case by simp
qed

section \<open>Load errors\<close>

lemma initial_fields:
  "m_model initial = None" "m_inputFiles initial = []" "m_settings initial = ()"
  "m_analysis initial = None" "messages initial = []"
  by (simp_all add: initial_def)

text \<open>
  C9. Every error raised while the configuration or the model files are read is shown in
  a blocking message box that carries the text of the error, and the window keeps its
  model, its list of input files and its result tree. \<open>addInputFiles\<close> and the first two
  failures of \<open>setConfig\<close> change nothing but the list of shown messages. When
  \<open>setConfig\<close> has read the configuration and fails only inside \<open>addInputFiles\<close>, which
  handles its own error, the model, the input files, the analysis, both trees, both
  registries and the tabs are as before (the settings are then those of the
  configuration).
\<close>

theorem load_error_keeps_state:
  "(inputFiles \<noteq> [] \<and> Initializer (m_inputFiles st @ inputFiles) (m_settings st) = Inl err \<longrightarrow>
      addInputFiles Initializer inputFiles st =
        Inr (st\<lparr>messages := messages st @ [(''Initialization Error'', err)]\<rparr>)) \<and>
   (Config configPath = Inl err \<longrightarrow>
      setConfig Config Initializer configPath inputFiles st =
        Inr (st\<lparr>messages := messages st @ [(''Configuration Error'', err)]\<rparr>)) \<and>
   (Config configPath = Inr config \<and>
    Initializer (input_files config) (settings config) = Inl err \<longrightarrow>
      setConfig Config Initializer configPath inputFiles st =
        Inr (st\<lparr>messages := messages st @ [(''Configuration Error'', err)]\<rparr>)) \<and>
   (Config configPath = Inr config \<and>
    Initializer (input_files config) (settings config) = Inr checked \<and>
    input_files config @ inputFiles \<noteq> [] \<and>
    Initializer (m_inputFiles st @ input_files config @ inputFiles) (m_settings st) = Inl err \<longrightarrow>
      (\<exists>st'. setConfig Config Initializer configPath inputFiles st = Inr st' \<and>
         messages st' = messages st @ [(''Initialization Error'', err)] \<and>
         m_model st' = m_model st \<and> m_inputFiles st' = m_inputFiles st \<and>
         m_analysis st' = m_analysis st \<and>
         reportTreeWidget st' = reportTreeWidget st \<and>
         m_reportActions st' = m_reportActions st \<and>
         treeWidget st' = treeWidget st \<and> m_treeActions st' = m_treeActions st \<and>
         tabWidget st' = tabWidget st))"
  by (auto simp: addInputFiles_def setConfig_def critical_def)

theorem load_error_keeps_state_witness:
  "addInputFiles Initializer0 [''bad.xml''] initial =
     Inr (initial\<lparr>messages := [(''Initialization Error'', ''not well formed'')]\<rparr>) \<and>
   setConfig Config0 Initializer0 ''missing.xml'' [] initial =
     Inr (initial\<lparr>messages := [(''Configuration Error'', ''cannot open'')]\<rparr>) \<and>
   setConfig Config0 Initializer0 ''broken.xml'' [] initial =
     Inr (initial\<lparr>messages := [(''Configuration Error'', ''not well formed'')]\<rparr>) \<and>
   (\<exists>st'. setConfig Config0 Initializer0 ''ok.xml'' [''b.xml''] initial = Inr st' \<and>
      messages st' = [(''Initialization Error'', ''redefinition'')] \<and>
      m_model st' = None \<and> m_inputFiles st' = [] \<and> m_analysis st' = None \<and>
      reportTreeWidget st' = reportTreeWidget initial)"
proof -
  have a: "addInputFiles Initializer0 [''bad.xml''] initial =
     Inr (initial\<lparr>messages := [(''Initialization Error'', ''not well formed'')]\<rparr>)"
    using load_error_keeps_state [of "[''bad.xml'']" Initializer0 initial "''not well formed''"]
    by (simp add: Initializer0_def initial_fields)
  have b: "setConfig Config0 Initializer0 ''missing.xml'' [] initial =
     Inr (initial\<lparr>messages := [(''Configuration Error'', ''cannot open'')]\<rparr>)"
    using load_error_keeps_state [of _ _ initial "''cannot open''" Config0 "''missing.xml''"]
    by (simp add: Config0_def initial_fields)
  have c: "setConfig Config0 Initializer0 ''broken.xml'' [] initial =
     Inr (initial\<lparr>messages := [(''Configuration Error'', ''not well formed'')]\<rparr>)"
    using load_error_keeps_state [of _ Initializer0 initial "''not well formed''" Config0
        "''broken.xml''" "\<lparr>input_files = [''bad.xml''], settings = ()\<rparr>"]
    by (simp add: Config0_def Initializer0_def initial_fields)
  have d: "\<exists>st'. setConfig Config0 Initializer0 ''ok.xml'' [''b.xml''] initial = Inr st' \<and>
      messages st' = [(''Initialization Error'', ''redefinition'')] \<and>
      m_model st' = None \<and> m_inputFiles st' = [] \<and> m_analysis st' = None \<and>
      reportTreeWidget st' = reportTreeWidget initial"
    using load_error_keeps_state [of "[''b.xml'']" Initializer0 initial "''redefinition''" Config0
        "''ok.xml''" "\<lparr>input_files = [''a.xml''], settings = ()\<rparr>"
        "\<lparr>mdl_name = ''m'', fault_trees = [], gates = [], basic_events = []\<rparr>"]
    by (auto simp: Config0_def Initializer0_def initial_fields)
  from a b c d show ?thesis by blast
qed

section \<open>Detail tables: the rows written by the builders\<close>

lemma setItem_frame [simp]:
  "rowCount (setItem row col v t) = rowCount t"
  "columnCount (setItem row col v t) = columnCount t"
  "horizontalHeaderLabels (setItem row col v t) = horizontalHeaderLabels t"
  by (simp_all add: setItem_def)

lemma setItem_items:
  "table_items (setItem row col v t) (i, c) =
     (if i = row \<and> c = col \<and> row < rowCount t \<and> col < columnCount t then Some v
      else table_items t (i, c))"
  by (simp add: setItem_def)

lemma importanceRows_frame [simp]:
  "rowCount (importanceRows records row t) = rowCount t"
  "columnCount (importanceRows records row t) = columnCount t"
  "horizontalHeaderLabels (importanceRows records row t) = horizontalHeaderLabels t"
  by (induction records arbitrary: row t; simp)+

lemma importanceRows_before:
  "i < row \<Longrightarrow> table_items (importanceRows records row t) (i, c) = table_items t (i, c)"
  by (induction records arbitrary: row t) (simp_all add: setItem_items)

lemma importanceRows_outside:
  "8 \<le> c \<Longrightarrow> columnCount t = 8 \<Longrightarrow>
   table_items (importanceRows records row t) (i, c) = table_items t (i, c)"
  by (induction records arbitrary: row t) (simp_all add: setItem_items)

lemma importanceRows_cells:
  "columnCount t = 8 \<Longrightarrow> row + length records \<le> rowCount t \<Longrightarrow> i < length records \<Longrightarrow>
   table_items (importanceRows records row t) (row + i, 0)
     = Some (VString (QStr (be_id (ir_event (records ! i))))) \<and>
   table_items (importanceRows records row t) (row + i, 1)
     = Some (VInt (occurrence (factors (records ! i)))) \<and>
   table_items (importanceRows records row t) (row + i, 2)
     = Some (VDouble (be_p (ir_event (records ! i)))) \<and>
   table_items (importanceRows records row t) (row + i, 3)
     = Some (VDouble (mif (factors (records ! i)))) \<and>
   table_items (importanceRows records row t) (row + i, 4)
     = Some (VDouble (cif (factors (records ! i)))) \<and>
   table_items (importanceRows records row t) (row + i, 5)
     = Some (VDouble (dif (factors (records ! i)))) \<and>
   table_items (importanceRows records row t) (row + i, 6)
     = Some (VDouble (raw (factors (records ! i)))) \<and>
   table_items (importanceRows records row t) (row + i, 7)
     = Some (VDouble (rrw (factors (records ! i))))"
proof (induction records arbitrary: row t i)
  case Nil
  then show ?case by simp
next
  case (Cons rcd records)
  show ?case
  proof (cases i)
    case 0
    with Cons.prems show ?thesis
      by (simp add: importanceRows_before setItem_items)
  next
    case (Suc j)
    with Cons.prems Cons.IH [of _ "Suc row" j] show ?thesis
      by simp
  qed
qed

lemma currentWidget_showTab [simp]: "currentWidget (showTab w label st) = Some w"
  by (simp add: currentWidget_def showTab_def addTab_def setCurrentIndex_def)

lemma productRows_frame [simp]:
  "rowCount (productRows has_p psum ps row t) = rowCount t"
  "columnCount (productRows has_p psum ps row t) = columnCount t"
  "horizontalHeaderLabels (productRows has_p psum ps row t) = horizontalHeaderLabels t"
  by (induction ps arbitrary: row t; simp add: Let_def)+

lemma productRows_before:
  "i < row \<Longrightarrow> table_items (productRows has_p psum ps row t) (i, c) = table_items t (i, c)"
  by (induction ps arbitrary: row t) (simp_all add: setItem_items Let_def)

lemma productRows_outside:
  "(if has_p then 4 else 2) \<le> c \<Longrightarrow>
   table_items (productRows has_p psum ps row t) (i, c) = table_items t (i, c)"
  by (induction ps arbitrary: row t) (auto simp: setItem_items Let_def split: if_splits)

lemma productRows_cells:
  "columnCount t = (if has_p then 4 else 2) \<Longrightarrow> row + length ps \<le> rowCount t \<Longrightarrow>
   i < length ps \<Longrightarrow>
   table_items (productRows has_p psum ps row t) (row + i, 0)
     = Some (VString (QStr (join dot_separator (members (ps ! i))))) \<and>
   table_items (productRows has_p psum ps row t) (row + i, 1)
     = Some (VInt (prod_order (ps ! i))) \<and>
   (has_p \<longrightarrow>
     table_items (productRows has_p psum ps row t) (row + i, 2)
       = Some (VDouble (prod_p (ps ! i))) \<and>
     table_items (productRows has_p psum ps row t) (row + i, 3)
       = Some (VDouble (ddiv (prod_p (ps ! i)) psum)))"
proof (induction ps arbitrary: row t i)
  case Nil
  then show ?case by simp
next
  case (Cons p ps)
  show ?case
  proof (cases i)
    case 0
    with Cons.prems show ?thesis
      by (simp add: productRows_before setItem_items Let_def)
  next
    case (Suc j)
    with Cons.prems Cons.IH [of _ "Suc row" j] show ?thesis
      by (simp add: Let_def)
  qed
qed

lemma psum_foldl:
  "foldl (\<lambda>acc p. dadd acc (prod_p p)) z ps = foldl dadd z (map prod_p ps)"
  by (simp add: foldl_map)

lemma activate_products:
  assumes "m_reportActions st i = Some (ProductsTable r name)"
    and "fault_tree_analysis r = Some products"
  shows "reportItemActivated i st =
      Inr (showTab (TableView (productTable r products)) (QArg ''Products: %1'' (AStr name)) st)"
  using assms by (simp add: reportItemActivated_def)

lemma productTable_shape:
  "rowCount (productTable r products) = length products"
  "columnCount (productTable r products) = (if probability_analysis r = None then 2 else 4)"
  "horizontalHeaderLabels (productTable r products) =
     (if probability_analysis r = None then [''Product'', ''Order'']
      else [''Product'', ''Order'', ''Probability'', ''Contribution''])"
  by (simp_all add: productTable_def Let_def)

lemma productTable_no_probability:
  "probability_analysis r = None \<Longrightarrow> 2 \<le> c \<Longrightarrow>
   table_items (productTable r products) (row, c) = None"
  by (simp add: productTable_def Let_def productRows_outside newTable_def)

lemma productTable_probability_cells:
  assumes "probability_analysis r \<noteq> None" and "row < length products"
  shows "table_items (productTable r products) (row, 2)
           = Some (VDouble (prod_p (products ! row)))"
    and "table_items (productTable r products) (row, 3)
           = Some (VDouble (ddiv (prod_p (products ! row))
                             (foldl dadd (Finite 0) (map prod_p products))))"
  using assms
    productRows_cells [of "newTable\<lparr>columnCount := 4,
        horizontalHeaderLabels := [''Product'', ''Order'', ''Probability'', ''Contribution''],
        rowCount := length products\<rparr>" True 0 products row
        "foldl dadd (Finite 0) (map prod_p products)"]
  by (simp_all add: productTable_def Let_def psum_foldl)

lemma example_fields:
  "fault_tree_analysis resultB = Some productsB" "probability_analysis resultB = Some (dbl 1)"
  "importance_analysis resultB = None" "res_id resultB = GateTarget (Gate ''top'' [])"
  "fault_tree_analysis resultC = Some productsB" "probability_analysis resultC = None"
  "importance_analysis resultC = None" "res_id resultC = GateTarget (Gate ''top'' [])"
  "fault_tree_analysis resultD = Some productsD"
  "probability_analysis resultD = Some (dbl (3/5))"
  "importance_analysis resultD = None" "res_id resultD = GateTarget (Gate ''top'' [])"
  by (simp_all add: resultB_def resultC_def resultD_def)

lemma registered_B:
  "m_reportActions (resetReportWidget [resultB] initial) 1 = Some (ProductsTable resultB ''top'')"
  "m_reportActions (resetReportWidget [resultC] initial) 1 = Some (ProductsTable resultC ''top'')"
  "m_reportActions (resetReportWidget [resultD] initial) 1 = Some (ProductsTable resultD ''top'')"
  by (simp_all add: resetReportWidget_def reportResult_def addSummaryItems_def addResultItem_def
      addProductItem_def addProbabilityItem_def emplace_def example_fields initial_def Let_def)

lemma productsB_values:
  "length productsB = 5"
  by (simp add: productsB_def)

lemma productsD_values:
  "length productsD = 3"
  "prod_p (productsD ! 0) = dbl (1/10)" "prod_p (productsD ! Suc 0) = dbl (1/5)"
  "prod_p (productsD ! 2) = dbl (3/10)"
  by (simp_all add: productsD_def single_def)

lemma productsD_sum:
  "foldl dadd (Finite 0) (map prod_p productsD) = sumD"
  by (simp add: productsD_def single_def sumD_def double_eval Rep_zero Rep_Abs_grid)

lemma productsD_quotients:
  "ddiv (dbl (1/10)) sumD = dbl (1/6)"
  "ddiv (dbl (1/5)) sumD = dbl (1/3)"
  "ddiv (dbl (3/10)) sumD = dbl (1/2 - 1 / 2 ^ 53)"
  by (simp_all add: ddiv_def sumD_def double_eval Rep_Abs_grid)

lemma productsD_rounded:
  "sumD \<noteq> dbl (3/5)" "dbl (1/2 - 1 / 2 ^ 53) \<noteq> dbl (1/2)"
  "dbl (1/2 - 1 / 2 ^ 53) \<noteq> dbl (3/10)"
proof -
  have v: "finite_value sumD = 5404319552844596 / 2 ^ 53"
    "finite_value (dbl (3/5)) = 5404319552844595 / 2 ^ 53"
    "finite_value (dbl (1/2 - 1 / 2 ^ 53)) = 1/2 - 1 / 2 ^ 53"
    "finite_value (dbl (1/2)) = 1/2"
    "finite_value (dbl (3/10)) = 5404319552844595 / 2 ^ 54"
    by (simp_all add: sumD_def double_eval Rep_Abs_grid)
  show "sumD \<noteq> dbl (3/5)"
  proof
    assume "sumD = dbl (3/5)"
    then have "finite_value sumD = finite_value (dbl (3/5))" by simp
    then show False unfolding v by simp
  qed
  show "dbl (1/2 - 1 / 2 ^ 53) \<noteq> dbl (1/2)"
  proof
    assume "dbl (1/2 - 1 / 2 ^ 53) = dbl (1/2)"
    then have "finite_value (dbl (1/2 - 1 / 2 ^ 53)) = finite_value (dbl (1/2))" by simp
    then show False unfolding v by simp
  qed
  show "dbl (1/2 - 1 / 2 ^ 53) \<noteq> dbl (3/10)"
  proof
    assume "dbl (1/2 - 1 / 2 ^ 53) = dbl (3/10)"
    then have "finite_value (dbl (1/2 - 1 / 2 ^ 53)) = finite_value (dbl (3/10))" by simp
    then show False unfolding v by simp
  qed
qed

lemma productsD_third:
  "\<exists>x y. prod_p (productsD ! 2) = Finite x \<and> x \<noteq> 0 \<and>
     foldl dadd (Finite 0) (map prod_p productsD) = Finite y \<and> y \<noteq> 0 \<and>
     round64 (Rep_binary64 x / Rep_binary64 y) = dbl (1/2 - 1 / 2 ^ 53)"
proof (intro exI conjI)
  let ?x = "Abs_binary64 (5404319552844595 / 2 ^ 54)"
  let ?y = "Abs_binary64 (5404319552844596 / 2 ^ 53)"
  have rx: "Rep_binary64 ?x = 5404319552844595 / 2 ^ 54"
    by (rule Rep_Abs_grid) (simp_all add: double_eval)
  have ry: "Rep_binary64 ?y = 5404319552844596 / 2 ^ 53"
    by (rule Rep_Abs_grid) (simp_all add: double_eval)
  show "prod_p (productsD ! 2) = Finite ?x"
    by (simp add: productsD_def single_def double_eval)
  show "foldl dadd (Finite 0) (map prod_p productsD) = Finite ?y"
    by (simp add: productsD_sum sumD_def double_eval)
  show "?x \<noteq> 0"
  proof
    assume "?x = 0"
    then have "Rep_binary64 ?x = 0" by (simp only: Rep_zero)
    with rx show False by simp
  qed
  show "?y \<noteq> 0"
  proof
    assume "?y = 0"
    then have "Rep_binary64 ?y = 0" by (simp only: Rep_zero)
    with ry show False by simp
  qed
  show "round64 (Rep_binary64 ?x / Rep_binary64 ?y) = dbl (1/2 - 1 / 2 ^ 53)"
    unfolding rx ry by (simp add: double_eval)
qed

lemma zeroResult_fields:
  "fault_tree_analysis zeroResult = Some zeroProducts"
  "probability_analysis zeroResult = Some (Finite 0)"
  "importance_analysis zeroResult = None" "res_id zeroResult = GateTarget (Gate ''top'' [])"
  by (simp_all add: zeroResult_def)

lemma registered_zero:
  "m_reportActions (resetReportWidget [zeroResult] initial) 1
     = Some (ProductsTable zeroResult ''top'')"
  by (simp add: resetReportWidget_def reportResult_def addSummaryItems_def addResultItem_def
      addProductItem_def addProbabilityItem_def emplace_def zeroResult_fields initial_def Let_def)

lemma resultI_fields:
  "fault_tree_analysis resultI = Some productsB" "probability_analysis resultI = Some (dbl 1)"
  "importance_analysis resultI = Some [recordA, recordB]"
  "res_id resultI = GateTarget (Gate ''top'' [])"
  by (simp_all add: resultI_def)

lemma registered_I:
  "m_reportActions (resetReportWidget [resultI] initial) 3 = Some (ImportanceTable resultI ''top'')"
  by (simp add: resetReportWidget_def reportResult_def addSummaryItems_def addResultItem_def
      addProductItem_def addProbabilityItem_def addImportanceItem_def emplace_def resultI_fields
      initial_def Let_def)

lemma activate_importance:
  assumes "m_reportActions st i = Some (ImportanceTable r name)"
    and "importance_analysis r = Some records"
  shows "reportItemActivated i st =
      Inr (showTab (TableView (importanceTable records)) (QArg ''Importance: %1'' (AStr name)) st)"
  using assms by (simp add: reportItemActivated_def)

lemma importanceTable_shape:
  "rowCount (importanceTable records) = length records"
  "columnCount (importanceTable records) = 8"
  "horizontalHeaderLabels (importanceTable records) =
     [''Id'', ''Occurrence'', ''Probability'', ''MIF'', ''CIF'', ''DIF'', ''RAW'', ''RRW'']"
  by (simp_all add: importanceTable_def)

lemma importanceTable_cells:
  assumes "row < length records"
  shows "table_items (importanceTable records) (row, 0)
           = Some (VString (QStr (be_id (ir_event (records ! row)))))"
    and "table_items (importanceTable records) (row, 1)
           = Some (VInt (occurrence (factors (records ! row))))"
    and "table_items (importanceTable records) (row, 2)
           = Some (VDouble (be_p (ir_event (records ! row))))"
    and "table_items (importanceTable records) (row, 3)
           = Some (VDouble (mif (factors (records ! row))))"
    and "table_items (importanceTable records) (row, 4)
           = Some (VDouble (cif (factors (records ! row))))"
    and "table_items (importanceTable records) (row, 5)
           = Some (VDouble (dif (factors (records ! row))))"
    and "table_items (importanceTable records) (row, 6)
           = Some (VDouble (raw (factors (records ! row))))"
    and "table_items (importanceTable records) (row, 7)
           = Some (VDouble (rrw (factors (records ! row))))"
  using assms
    importanceRows_cells [of "newTable\<lparr>columnCount := 8,
        horizontalHeaderLabels :=
          [''Id'', ''Occurrence'', ''Probability'', ''MIF'', ''CIF'', ''DIF'', ''RAW'', ''RRW''],
        rowCount := length records\<rparr>" 0 records row]
  by (simp_all add: importanceTable_def)

lemma zero_sum_all_zero:
  assumes "\<forall>p \<in> set ps. \<exists>x\<ge>0. prod_p p = Finite x"
    and "foldl dadd (Finite 0) (map prod_p ps) = Finite 0"
  shows "\<forall>p \<in> set ps. prod_p p = Finite 0"
proof -
  from assms(1) have "\<forall>d \<in> set (map prod_p ps). \<exists>x\<ge>0. d = Finite x" by simp
  from zero_sum_all_zero_doubles [OF this assms(2)] show ?thesis by simp
qed

section \<open>The importance table\<close>

text \<open>
  C2, as the code has it. Activating an item registered with the importance action of a
  result builds a table with the 8 columns Id, Occurrence, Probability, MIF, CIF, DIF, RAW,
  RRW and one row per importance record. Occurrence, MIF, CIF, DIF, RAW and RRW are the
  values of the record's factor bundle; Id and Probability are the id and the probability
  of the event the record refers to.
\<close>

theorem importance_table_contents:
  assumes "m_reportActions st i = Some (ImportanceTable r name)"
    and "importance_analysis r = Some records"
  shows "\<exists>st' T. reportItemActivated i st = Inr st' \<and>
           currentWidget st' = Some (TableView T) \<and>
           columnCount T = 8 \<and>
           horizontalHeaderLabels T =
             [''Id'', ''Occurrence'', ''Probability'', ''MIF'', ''CIF'', ''DIF'', ''RAW'', ''RRW''] \<and>
           rowCount T = length records \<and>
           (\<forall>row < length records.
              table_items T (row, 0) = Some (VString (QStr (be_id (ir_event (records ! row))))) \<and>
              table_items T (row, 1) = Some (VInt (occurrence (factors (records ! row)))) \<and>
              table_items T (row, 2) = Some (VDouble (be_p (ir_event (records ! row)))) \<and>
              table_items T (row, 3) = Some (VDouble (mif (factors (records ! row)))) \<and>
              table_items T (row, 4) = Some (VDouble (cif (factors (records ! row)))) \<and>
              table_items T (row, 5) = Some (VDouble (dif (factors (records ! row)))) \<and>
              table_items T (row, 6) = Some (VDouble (raw (factors (records ! row)))) \<and>
              table_items T (row, 7) = Some (VDouble (rrw (factors (records ! row)))))"
proof (intro exI conjI)
  show "reportItemActivated i st =
      Inr (showTab (TableView (importanceTable records)) (QArg ''Importance: %1'' (AStr name)) st)"
    using assms by (rule activate_importance)
  show "currentWidget (showTab (TableView (importanceTable records))
      (QArg ''Importance: %1'' (AStr name)) st) = Some (TableView (importanceTable records))"
    by simp
  show "\<forall>row < length records.
      table_items (importanceTable records) (row, 0)
        = Some (VString (QStr (be_id (ir_event (records ! row))))) \<and>
      table_items (importanceTable records) (row, 1)
        = Some (VInt (occurrence (factors (records ! row)))) \<and>
      table_items (importanceTable records) (row, 2)
        = Some (VDouble (be_p (ir_event (records ! row)))) \<and>
      table_items (importanceTable records) (row, 3)
        = Some (VDouble (mif (factors (records ! row)))) \<and>
      table_items (importanceTable records) (row, 4)
        = Some (VDouble (cif (factors (records ! row)))) \<and>
      table_items (importanceTable records) (row, 5)
        = Some (VDouble (dif (factors (records ! row)))) \<and>
      table_items (importanceTable records) (row, 6)
        = Some (VDouble (raw (factors (records ! row)))) \<and>
      table_items (importanceTable records) (row, 7)
        = Some (VDouble (rrw (factors (records ! row))))"
    by (intro allI impI conjI importanceTable_cells)
qed (simp_all add: importanceTable_shape)

theorem importance_table_contents_witness:
  "\<exists>st' T. reportItemActivated 3 (resetReportWidget [resultI] initial) = Inr st' \<and>
      currentWidget st' = Some (TableView T) \<and> columnCount T = 8 \<and> rowCount T = 2 \<and>
      table_items T (0, 0) = Some (VString (QStr ''a'')) \<and>
      table_items T (1, 1) = Some (VInt 2) \<and>
      table_items T (1, 2) = Some (VDouble (dbl (1/2))) \<and>
      table_items T (0, 7) = Some (VDouble (dbl 3))"
  using importance_table_contents [OF registered_I resultI_fields(3)]
  by (auto simp: recordA_def recordB_def event_def factorsX_def)

text \<open>
  Two records with the same factor bundle and different events get different Id and
  Probability cells, and neither Probability cell is the probability of the bundle: these
  two cells are not taken from the factor bundle.
\<close>

theorem importance_probability_counterexample:
  "factors recordA = factors recordB \<and>
   probability (factors recordA) = dbl (3/4) \<and>
   table_items (importanceTable [recordA]) (0, 2) = Some (VDouble (dbl (1/4))) \<and>
   table_items (importanceTable [recordB]) (0, 2) = Some (VDouble (dbl (1/2))) \<and>
   dbl (1/4) \<noteq> dbl (3/4) \<and> dbl (1/2) \<noteq> dbl (3/4) \<and>
   table_items (importanceTable [recordA]) (0, 0) = Some (VString (QStr ''a'')) \<and>
   table_items (importanceTable [recordB]) (0, 0) = Some (VString (QStr ''b''))"
  by (simp add: recordA_def recordB_def factorsX_def event_def importanceTable_def newTable_def
      setItem_def example_doubles_differ)

section \<open>The product table\<close>

text \<open>
  C4. Activating an item registered with the product action of a result builds a table
  with one row per product. With a probability sub-result the columns are Product, Order,
  Probability, Contribution, and the Contribution of a row is the probability of its
  product divided by the sum of the probabilities of all products of the result, one sum
  for all rows; without it the columns are Product and Order only, and no cell exists
  beyond them. The sum and the quotient are those of doubles: the sum is accumulated
  from \<^verbatim>\<open>0.0\<close> in the order of the products, rounded after every addition, and for a
  finite non-zero probability and a finite non-zero sum the Contribution is their exact
  quotient rounded to a double.
\<close>

theorem product_table_columns:
  assumes "m_reportActions st i = Some (ProductsTable r name)"
    and "fault_tree_analysis r = Some products"
  shows "\<exists>st' T. reportItemActivated i st = Inr st' \<and>
           currentWidget st' = Some (TableView T) \<and>
           rowCount T = length products \<and>
           (case probability_analysis r of
              Some p_total \<Rightarrow>
                columnCount T = 4 \<and>
                horizontalHeaderLabels T = [''Product'', ''Order'', ''Probability'', ''Contribution''] \<and>
                (\<forall>row < length products.
                   table_items T (row, 2) = Some (VDouble (prod_p (products ! row))) \<and>
                   table_items T (row, 3) =
                     Some (VDouble (ddiv (prod_p (products ! row))
                                      (foldl dadd (Finite 0) (map prod_p products)))) \<and>
                   (\<forall>x y. prod_p (products ! row) = Finite x \<and> x \<noteq> 0 \<and>
                      foldl dadd (Finite 0) (map prod_p products) = Finite y \<and> y \<noteq> 0 \<longrightarrow>
                      table_items T (row, 3) =
                        Some (VDouble (round64 (Rep_binary64 x / Rep_binary64 y)))))
            | None \<Rightarrow>
                columnCount T = 2 \<and>
                horizontalHeaderLabels T = [''Product'', ''Order''] \<and>
                (\<forall>row c. 2 \<le> c \<longrightarrow> table_items T (row, c) = None))"
proof (intro exI conjI)
  show "reportItemActivated i st =
      Inr (showTab (TableView (productTable r products)) (QArg ''Products: %1'' (AStr name)) st)"
    using assms by (rule activate_products)
  show "currentWidget (showTab (TableView (productTable r products))
      (QArg ''Products: %1'' (AStr name)) st) = Some (TableView (productTable r products))"
    by simp
  show "rowCount (productTable r products) = length products"
    by (simp add: productTable_shape)
  show "case probability_analysis r of
      Some p_total \<Rightarrow>
        columnCount (productTable r products) = 4 \<and>
        horizontalHeaderLabels (productTable r products)
          = [''Product'', ''Order'', ''Probability'', ''Contribution''] \<and>
        (\<forall>row < length products.
           table_items (productTable r products) (row, 2)
             = Some (VDouble (prod_p (products ! row))) \<and>
           table_items (productTable r products) (row, 3) =
             Some (VDouble (ddiv (prod_p (products ! row))
                              (foldl dadd (Finite 0) (map prod_p products)))) \<and>
           (\<forall>x y. prod_p (products ! row) = Finite x \<and> x \<noteq> 0 \<and>
              foldl dadd (Finite 0) (map prod_p products) = Finite y \<and> y \<noteq> 0 \<longrightarrow>
              table_items (productTable r products) (row, 3) =
                Some (VDouble (round64 (Rep_binary64 x / Rep_binary64 y)))))
    | None \<Rightarrow>
        columnCount (productTable r products) = 2 \<and>
        horizontalHeaderLabels (productTable r products) = [''Product'', ''Order''] \<and>
        (\<forall>row c. 2 \<le> c \<longrightarrow> table_items (productTable r products) (row, c) = None)"
    by (cases "probability_analysis r")
      (simp_all add: productTable_shape productTable_no_probability
        productTable_probability_cells ddiv_finite)
qed

text \<open>
  The products with the probabilities 0.1, 0.2 and 0.3: the sum is the double next above
  0.6, the Contribution cells hold the doubles nearest to 1/6 and 1/3 and the double next
  below 1/2, and the Contribution of the third row is neither its Probability cell nor
  the exact quotient 1/2. Without a probability sub-result the table has two columns.
\<close>

theorem product_table_columns_witness:
  "(\<exists>st' T. reportItemActivated 1 (resetReportWidget [resultD] initial) = Inr st' \<and>
      currentWidget st' = Some (TableView T) \<and> rowCount T = 3 \<and> columnCount T = 4 \<and>
      table_items T (2, 2) = Some (VDouble (dbl (3/10))) \<and>
      table_items T (0, 3) = Some (VDouble (dbl (1/6))) \<and>
      table_items T (1, 3) = Some (VDouble (dbl (1/3))) \<and>
      table_items T (2, 3) = Some (VDouble (dbl (1/2 - 1 / 2 ^ 53)))) \<and>
   foldl dadd (Finite 0) (map prod_p productsD) = dbl (3/5 + 1 / 2 ^ 53) \<and>
   dbl (3/5 + 1 / 2 ^ 53) \<noteq> dbl (3/5) \<and>
   dbl (1/2 - 1 / 2 ^ 53) \<noteq> dbl (1/2) \<and> dbl (1/2 - 1 / 2 ^ 53) \<noteq> dbl (3/10) \<and>
   (\<exists>st' T. reportItemActivated 1 (resetReportWidget [resultC] initial) = Inr st' \<and>
      currentWidget st' = Some (TableView T) \<and> rowCount T = 5 \<and> columnCount T = 2 \<and>
      table_items T (0, 3) = None)"
proof -
  note run = product_table_columns [OF registered_B(3) example_fields(9),
      unfolded example_fields(10) option.case productsD_values(1)]
  from run obtain st' T where t: "reportItemActivated 1 (resetReportWidget [resultD] initial) = Inr st'"
    "currentWidget st' = Some (TableView T)" "rowCount T = 3" "columnCount T = 4"
    and rows: "\<forall>row<3.
      table_items T (row, 2) = Some (VDouble (prod_p (productsD ! row))) \<and>
      table_items T (row, 3) =
        Some (VDouble (ddiv (prod_p (productsD ! row))
                         (foldl dadd (Finite 0) (map prod_p productsD)))) \<and>
      (\<forall>x y. prod_p (productsD ! row) = Finite x \<and> x \<noteq> 0 \<and>
         foldl dadd (Finite 0) (map prod_p productsD) = Finite y \<and> y \<noteq> 0 \<longrightarrow>
         table_items T (row, 3) =
           Some (VDouble (round64 (Rep_binary64 x / Rep_binary64 y))))"
    by blast
  have lt: "(0 :: nat) < 3" "(1 :: nat) < 3" "(2 :: nat) < 3" by simp_all
  from productsD_third obtain x y where "prod_p (productsD ! 2) = Finite x \<and> x \<noteq> 0 \<and>
      foldl dadd (Finite 0) (map prod_p productsD) = Finite y \<and> y \<noteq> 0"
    and r: "round64 (Rep_binary64 x / Rep_binary64 y) = dbl (1/2 - 1 / 2 ^ 53)"
    by blast
  with rows lt(3)
  have "table_items T (2, 3) = Some (VDouble (round64 (Rep_binary64 x / Rep_binary64 y)))"
    by blast
  with r have third: "table_items T (2, 3) = Some (VDouble (dbl (1/2 - 1 / 2 ^ 53)))"
    by (simp only:)
  from rows lt
  have "table_items T (2, 2) = Some (VDouble (prod_p (productsD ! 2)))"
    "table_items T (0, 3) =
       Some (VDouble (ddiv (prod_p (productsD ! 0)) (foldl dadd (Finite 0) (map prod_p productsD))))"
    "table_items T (1, 3) =
       Some (VDouble (ddiv (prod_p (productsD ! 1)) (foldl dadd (Finite 0) (map prod_p productsD))))"
    by blast+
  then have "table_items T (2, 2) = Some (VDouble (dbl (3/10)))"
    "table_items T (0, 3) = Some (VDouble (dbl (1/6)))"
    "table_items T (1, 3) = Some (VDouble (dbl (1/3)))"
    by (simp_all add: productsD_values productsD_sum productsD_quotients)
  with t third
  have d: "\<exists>st' T. reportItemActivated 1 (resetReportWidget [resultD] initial) = Inr st' \<and>
      currentWidget st' = Some (TableView T) \<and> rowCount T = 3 \<and> columnCount T = 4 \<and>
      table_items T (2, 2) = Some (VDouble (dbl (3/10))) \<and>
      table_items T (0, 3) = Some (VDouble (dbl (1/6))) \<and>
      table_items T (1, 3) = Some (VDouble (dbl (1/3))) \<and>
      table_items T (2, 3) = Some (VDouble (dbl (1/2 - 1 / 2 ^ 53)))"
    by blast
  have c: "\<exists>st' T. reportItemActivated 1 (resetReportWidget [resultC] initial) = Inr st' \<and>
      currentWidget st' = Some (TableView T) \<and> rowCount T = 5 \<and> columnCount T = 2 \<and>
      table_items T (0, 3) = None"
    using product_table_columns [OF registered_B(2) example_fields(5)]
    by (auto simp: example_fields productsB_values)
  have s: "foldl dadd (Finite 0) (map prod_p productsD) = dbl (3/5 + 1 / 2 ^ 53)"
    "dbl (3/5 + 1 / 2 ^ 53) \<noteq> dbl (3/5)"
    using productsD_sum productsD_rounded(1) unfolding sumD_def by blast+
  from d c s productsD_rounded(2,3) show ?thesis by blast
qed

text \<open>
  C3, as the code has it. With a probability sub-result, non-negative product
  probabilities and a sum of zero, the table is built without a fault and the
  Contribution cell of every row holds the double not-a-number, the result of
  \<^verbatim>\<open>0.0 / 0.0\<close>; the cell is numeric like every other contribution, the builder
  writes no placeholder.
\<close>

theorem zero_sum_contribution:
  assumes "m_reportActions st i = Some (ProductsTable r name)"
    and "fault_tree_analysis r = Some products"
    and "probability_analysis r \<noteq> None"
    and "\<forall>p \<in> set products. \<exists>x\<ge>0. prod_p p = Finite x"
    and "foldl dadd (Finite 0) (map prod_p products) = Finite 0"
  shows "\<exists>st' T. reportItemActivated i st = Inr st' \<and>
           currentWidget st' = Some (TableView T) \<and>
           (\<forall>row < length products.
              table_items T (row, 3) = Some (VDouble NaN) \<and>
              (\<forall>v. table_items T (row, 3) = Some v \<longrightarrow> \<not> placeholder v))"
proof (intro exI conjI)
  show "reportItemActivated i st =
      Inr (showTab (TableView (productTable r products)) (QArg ''Products: %1'' (AStr name)) st)"
    using assms(1,2) by (rule activate_products)
  show "currentWidget (showTab (TableView (productTable r products))
      (QArg ''Products: %1'' (AStr name)) st) = Some (TableView (productTable r products))"
    by simp
  from assms(4,5) have zero: "\<forall>p \<in> set products. prod_p p = Finite 0"
    by (rule zero_sum_all_zero)
  show "\<forall>row < length products.
      table_items (productTable r products) (row, 3) = Some (VDouble NaN) \<and>
      (\<forall>v. table_items (productTable r products) (row, 3) = Some v \<longrightarrow> \<not> placeholder v)"
    using zero assms(3,5) by (simp add: productTable_probability_cells ddiv_zero_zero)
qed

theorem zero_sum_contribution_witness:
  "\<exists>st' T. reportItemActivated 1 (resetReportWidget [zeroResult] initial) = Inr st' \<and>
      currentWidget st' = Some (TableView T) \<and>
      table_items T (0, 3) = Some (VDouble NaN) \<and>
      table_items T (1, 3) = Some (VDouble NaN)"
  using zero_sum_contribution [OF registered_zero zeroResult_fields(1)]
  by (auto simp: zeroResult_fields zeroProducts_def single_def dbl_0 Rep_zero round64_0
      zero_le_zero)

text \<open>
  Two products of probability zero: the sum is zero and the Contribution cell of the first
  row is the double not-a-number, not a placeholder.
\<close>

theorem zero_sum_placeholder_counterexample:
  "foldl dadd (Finite 0) (map prod_p zeroProducts) = Finite 0 \<and>
   table_items (productTable zeroResult zeroProducts) (0, 3) = Some (VDouble NaN) \<and>
   \<not> placeholder (VDouble NaN)"
  by (simp add: zeroProducts_def zeroResult_def single_def productTable_def newTable_def
      setItem_def Let_def dbl_0 Rep_zero round64_0 ddiv_zero_zero)

section \<open>The report tree builder\<close>

lemma tree_ops [simp]:
  "tree_items (newTreeItem txt i tw) = (tree_items tw)(i \<mapsto> \<lparr>item_text = txt, item_children = []\<rparr>)"
  "topLevelItems (newTreeItem txt i tw) = topLevelItems tw"
  "tree_items (addTopLevelItem i tw) = tree_items tw"
  "topLevelItems (addTopLevelItem i tw) = topLevelItems tw @ [i]"
  "topLevelItems (addChild p c tw) = topLevelItems tw"
  by (simp_all add: newTreeItem_def addTopLevelItem_def addChild_def split: option.splits)

lemma assertionFailure_fields [simp]:
  "nextItem (assertionFailure c st) = nextItem st"
  "reportTreeWidget (assertionFailure c st) = reportTreeWidget st"
  "m_reportActions (assertionFailure c st) = m_reportActions st"
  by (simp_all add: assertionFailure_def)

lemma fresh_None:
  "fresh st \<Longrightarrow> nextItem st \<le> i \<Longrightarrow> m_reportActions st i = None"
  "fresh st \<Longrightarrow> nextItem st \<le> i \<Longrightarrow> tree_items (reportTreeWidget st) i = None"
  by (simp_all add: fresh_def)

lemmas report_defs = reportResult_def addSummaryItems_def addResultItem_def addProductItem_def
  addProbabilityItem_def addImportanceItem_def emplace_def addChild_def Let_def

lemma reportResult_nextItem: "nextItem st < nextItem (reportResult r products st)"
  by (cases "probability_analysis r"; cases "importance_analysis r";
      cases "snd (nameExtractor (res_id r))"; simp add: report_defs)

lemma reportResult_topLevel:
  "topLevelItems (reportTreeWidget (reportResult r products st))
     = topLevelItems (reportTreeWidget st) @ [nextItem st]"
  by (cases "probability_analysis r"; cases "importance_analysis r";
      cases "snd (nameExtractor (res_id r))"; simp add: report_defs)

lemma reportResult_old:
  "i < nextItem st \<Longrightarrow>
   tree_items (reportTreeWidget (reportResult r products st)) i
     = tree_items (reportTreeWidget st) i \<and>
   m_reportActions (reportResult r products st) i = m_reportActions st i"
  by (cases "probability_analysis r"; cases "importance_analysis r";
      cases "snd (nameExtractor (res_id r))"; simp add: report_defs split: option.splits)

lemma reportResult_fresh: "fresh st \<Longrightarrow> fresh (reportResult r products st)"
  unfolding fresh_def
  by (cases "probability_analysis r"; cases "importance_analysis r";
      cases "snd (nameExtractor (res_id r))"; simp add: report_defs)

lemma reportResult_item:
  "fresh st \<Longrightarrow>
   reportText (reportResult r products st) (nextItem st)
     = Some (QStr (fst (nameExtractor (res_id r)))) \<and>
   reportChildren (reportResult r products st) (nextItem st) = summaries r products \<and>
   (\<forall>it. tree_items (reportTreeWidget (reportResult r products st)) (nextItem st) = Some it
      \<longrightarrow> (\<forall>c \<in> set (item_children it). c < nextItem (reportResult r products st)))"
  by (cases "probability_analysis r"; cases "importance_analysis r";
      cases "snd (nameExtractor (res_id r))";
      simp add: fresh_None reportText_def reportChildren_def summaries_def report_defs)

lemma reportResult_actions:
  "m_reportActions (reportResult r products st) i = Some a \<Longrightarrow>
   m_reportActions st i = Some a \<or>
   (\<exists>name. a = ProductsTable r name \<or> a = ImportanceTable r name)"
  by (cases "probability_analysis r"; cases "importance_analysis r";
      cases "snd (nameExtractor (res_id r))";
      auto simp: report_defs split: option.splits if_splits)


lemma addResultItem_old:
  "nextItem st < nextItem (addResultItem r st)"
  "i < nextItem st \<Longrightarrow>
   tree_items (reportTreeWidget (addResultItem r st)) i = tree_items (reportTreeWidget st) i"
  "m_reportActions (addResultItem r st) = m_reportActions st"
  "fresh st \<Longrightarrow> fresh (addResultItem r st)"
  "topLevelItems (reportTreeWidget (addResultItem r st))
     = topLevelItems (reportTreeWidget st) @ [nextItem st]"
  by (cases "snd (nameExtractor (res_id r))"; simp add: fresh_def addResultItem_def Let_def)+

lemma reportResults_nextItem: "nextItem st \<le> nextItem (reportResults rs st)"
proof (induction rs arbitrary: st)
  case Nil
  show ?case by simp
next
  case (Cons r rs)
  show ?case
  proof (cases "fault_tree_analysis r")
    case None
    with addResultItem_old(1) [of st r] show ?thesis by simp
  next
    case (Some products)
    with Cons.IH [of "reportResult r products st"] reportResult_nextItem [of st r products]
    show ?thesis by simp
  qed
qed

lemma reportResults_old:
  "i < nextItem st \<Longrightarrow>
   tree_items (reportTreeWidget (reportResults rs st)) i = tree_items (reportTreeWidget st) i \<and>
   m_reportActions (reportResults rs st) i = m_reportActions st i"
proof (induction rs arbitrary: st)
  case Nil
  show ?case by simp
next
  case (Cons r rs)
  show ?case
  proof (cases "fault_tree_analysis r")
    case None
    with Cons.prems show ?thesis by (simp add: addResultItem_old)
  next
    case (Some products)
    from Cons.prems reportResult_nextItem [of st r products]
    have "i < nextItem (reportResult r products st)" by simp
    from Cons.IH [OF this] Some reportResult_old [OF Cons.prems, of r products]
    show ?thesis by simp
  qed
qed

lemma reportResults_fresh: "fresh st \<Longrightarrow> fresh (reportResults rs st)"
proof (induction rs arbitrary: st)
  case Nil
  then show ?case by simp
next
  case (Cons r rs)
  show ?case
  proof (cases "fault_tree_analysis r")
    case None
    with Cons.prems addResultItem_old(4) [of st r] show ?thesis
      by (simp add: fresh_def)
  next
    case (Some products)
    with Cons.IH [OF reportResult_fresh [OF Cons.prems]] show ?thesis by simp
  qed
qed

lemma reportResults_actions:
  "m_reportActions (reportResults rs st) i = Some a \<Longrightarrow>
   m_reportActions st i = Some a \<or>
   (\<exists>r \<in> set rs. \<exists>name. a = ProductsTable r name \<or> a = ImportanceTable r name)"
proof (induction rs arbitrary: st)
  case Nil
  then show ?case by simp
next
  case (Cons r rs)
  show ?case
  proof (cases "fault_tree_analysis r")
    case None
    with Cons.prems show ?thesis by (simp add: addResultItem_old)
  next
    case (Some products)
    with Cons.prems have "m_reportActions (reportResults rs (reportResult r products st)) i = Some a"
      by simp
    from Cons.IH [OF this] reportResult_actions [of r products st i a]
    show ?thesis by auto
  qed
qed

lemma reportResults_topLevel:
  assumes "\<forall>r \<in> set rs. fault_tree_analysis r \<noteq> None"
  shows "\<exists>new. topLevelItems (reportTreeWidget (reportResults rs st))
           = topLevelItems (reportTreeWidget st) @ new \<and> length new = length rs"
  using assms
proof (induction rs arbitrary: st)
  case Nil
  show ?case by simp
next
  case (Cons r rs)
  then obtain products where p: "fault_tree_analysis r = Some products" by auto
  from Cons.IH [of "reportResult r products st"] Cons.prems
  obtain new where "topLevelItems (reportTreeWidget (reportResults rs (reportResult r products st)))
      = topLevelItems (reportTreeWidget (reportResult r products st)) @ new"
    and "length new = length rs" by auto
  with p show ?case by (simp add: reportResult_topLevel)
qed

lemma reportResults_first:
  assumes "fault_tree_analysis r = Some products"
  shows "\<exists>new. topLevelItems (reportTreeWidget (reportResults (r # rs) st))
           = topLevelItems (reportTreeWidget st) @ nextItem st # new"
proof -
  have "\<exists>new. topLevelItems (reportTreeWidget (reportResults rs st'))
      = topLevelItems (reportTreeWidget st') @ new" for st' :: "'a main_window"
  proof (induction rs arbitrary: st')
    case Nil
    show ?case by simp
  next
    case (Cons q qs)
    show ?case
    proof (cases "fault_tree_analysis q")
      case None
      then show ?thesis by (simp add: addResultItem_old)
    next
      case (Some ps)
      with Cons [of "reportResult q ps st'"] show ?thesis
        by (auto simp: reportResult_topLevel)
    qed
  qed
  from this [of "reportResult r products st"] assms show ?thesis
    by (auto simp: reportResult_topLevel)
qed

lemma observers_stable:
  assumes "\<forall>i<n. tree_items (reportTreeWidget st') i = tree_items (reportTreeWidget st) i \<and>
             m_reportActions st' i = m_reportActions st i"
    and "w < n"
    and "\<forall>it. tree_items (reportTreeWidget st) w = Some it \<longrightarrow> (\<forall>c \<in> set (item_children it). c < n)"
  shows "reportText st' w = reportText st w" and "reportChildren st' w = reportChildren st w"
  using assms by (auto simp: reportText_def reportChildren_def split: option.splits)

lemma reportResults_at:
  assumes "fresh st" and "\<forall>r \<in> set rs. fault_tree_analysis r \<noteq> None" and "k < length rs"
    and "fault_tree_analysis (rs ! k) = Some products"
  shows "reportText (reportResults rs st)
           (topLevelItems (reportTreeWidget (reportResults rs st))
              ! (length (topLevelItems (reportTreeWidget st)) + k))
         = Some (QStr (fst (nameExtractor (res_id (rs ! k))))) \<and>
         reportChildren (reportResults rs st)
           (topLevelItems (reportTreeWidget (reportResults rs st))
              ! (length (topLevelItems (reportTreeWidget st)) + k))
         = summaries (rs ! k) products"
  using assms
proof (induction rs arbitrary: st k)
  case Nil
  then show ?case by simp
next
  case (Cons r rs)
  from Cons.prems(2) obtain ps where ps: "fault_tree_analysis r = Some ps" by auto
  let ?st1 = "reportResult r ps st"
  let ?st' = "reportResults rs ?st1"
  have final: "reportResults (r # rs) st = ?st'" using ps by simp
  show ?case
  proof (cases k)
    case 0
    with Cons.prems(4) ps have eq: "products = ps" by simp
    from reportResults_first [OF ps, of rs st] final
    have w: "topLevelItems (reportTreeWidget ?st') ! (length (topLevelItems (reportTreeWidget st)))
        = nextItem st"
      by (auto simp: nth_append)
    have stable: "\<forall>i<nextItem ?st1.
        tree_items (reportTreeWidget ?st') i = tree_items (reportTreeWidget ?st1) i \<and>
        m_reportActions ?st' i = m_reportActions ?st1 i"
      using reportResults_old by blast
    from reportResult_item [OF Cons.prems(1), of r ps]
    have item: "reportText ?st1 (nextItem st) = Some (QStr (fst (nameExtractor (res_id r))))"
      "reportChildren ?st1 (nextItem st) = summaries r ps"
      "\<forall>it. tree_items (reportTreeWidget ?st1) (nextItem st) = Some it
         \<longrightarrow> (\<forall>c \<in> set (item_children it). c < nextItem ?st1)"
      by simp_all
    from observers_stable [OF stable reportResult_nextItem item(3)] item(1,2) w final 0 eq
    show ?thesis by simp
  next
    case (Suc j)
    from Cons.IH [OF reportResult_fresh [OF Cons.prems(1)], of j r ps] Cons.prems Suc
    have "reportText ?st' (topLevelItems (reportTreeWidget ?st')
              ! (length (topLevelItems (reportTreeWidget ?st1)) + j))
         = Some (QStr (fst (nameExtractor (res_id (rs ! j))))) \<and>
         reportChildren ?st' (topLevelItems (reportTreeWidget ?st')
              ! (length (topLevelItems (reportTreeWidget ?st1)) + j))
         = summaries (rs ! j) products"
      by simp
    with final Suc show ?thesis by (simp add: reportResult_topLevel)
  qed
qed

lemma reportResult_model: "m_model (reportResult r products st) = m_model st"
  by (cases "probability_analysis r"; cases "importance_analysis r";
      cases "snd (nameExtractor (res_id r))"; simp add: report_defs assertionFailure_def)

lemma reportResults_model: "m_model (reportResults rs st) = m_model st"
proof (induction rs arbitrary: st)
  case Nil
  show ?case by simp
next
  case (Cons r rs)
  show ?case
  proof (cases "fault_tree_analysis r")
    case None
    then show ?thesis
      by (cases "snd (nameExtractor (res_id r))") (simp_all add: report_defs assertionFailure_def)
  next
    case (Some products)
    with Cons.IH [of "reportResult r products st"] show ?thesis
      by (simp add: reportResult_model)
  qed
qed

lemma resetReportWidget_model: "m_model (resetReportWidget analysis st) = m_model st"
  by (simp add: resetReportWidget_def reportResults_model)

lemma reportResults_topLevel_range:
  "set (topLevelItems (reportTreeWidget (reportResults rs st)))
     \<subseteq> set (topLevelItems (reportTreeWidget st)) \<union> {nextItem st ..< nextItem (reportResults rs st)}"
proof (induction rs arbitrary: st)
  case Nil
  show ?case by simp
next
  case (Cons r rs)
  show ?case
  proof (cases "fault_tree_analysis r")
    case None
    then show ?thesis by (simp add: addResultItem_old)
  next
    case (Some products)
    from Cons.IH [of "reportResult r products st"] reportResult_nextItem [of st r products]
      reportResults_nextItem [of "reportResult r products st" rs] Some
    show ?thesis by (auto simp: reportResult_topLevel)
  qed
qed

lemma cleared_fresh:
  "fresh (st\<lparr>reportTreeWidget := clear (reportTreeWidget st), m_reportActions := Map.empty,
             m_analysis := x\<rparr>)"
  by (simp add: fresh_def clear_def)

lemma addFaultTrees_report:
  "reportTreeWidget (addFaultTrees w fts st) = reportTreeWidget st"
  "m_reportActions (addFaultTrees w fts st) = m_reportActions st"
  "m_analysis (addFaultTrees w fts st) = m_analysis st"
  "tabWidget (addFaultTrees w fts st) = tabWidget st"
  by (induction fts arbitrary: st; simp add: Let_def)+

lemma sequenceResult_fields:
  "fault_tree_analysis sequenceResult = Some []" "probability_analysis sequenceResult = None"
  "importance_analysis sequenceResult = None" "res_id sequenceResult = SequenceTarget ''ie'' ''seq''"
  "fault_tree_analysis missingResult = None" "res_id missingResult = GateTarget (Gate ''g'' [])"
  by (simp_all add: sequenceResult_def missingResult_def)

lemmas example_runs = resetReportWidget_def reportResult_def addSummaryItems_def
  addResultItem_def addProductItem_def addProbabilityItem_def addImportanceItem_def emplace_def
  addChild_def assertionFailure_def clear_def reportText_def reportChildren_def Let_def
  example_fields resultI_fields sequenceResult_fields

lemma initial_window:
  "nextItem initial = 0" "assertions initial = []" "m_reportActions initial = Map.empty"
  "topLevelItems (reportTreeWidget initial) = []"
  "tree_items (reportTreeWidget initial) = Map.empty"
  by (simp_all add: initial_def)

lemma two_results_top:
  "topLevelItems (reportTreeWidget (resetReportWidget [resultB, sequenceResult] initial)) = [0, 3]"
  "topLevelItems (reportTreeWidget (resetReportWidget [resultI, resultC] initial)) = [0, 4]"
  by (simp_all add: example_runs initial_window)

lemma loaded_window:
  "nextItem loaded = 0" "assertions loaded = []" "m_reportActions loaded = Map.empty"
  "topLevelItems (reportTreeWidget loaded) = []"
  "tree_items (reportTreeWidget loaded) = Map.empty"
  "m_model loaded = Some scenarioA"
  "tabWidget loaded = [\<lparr>tab_widget = StartPage, tab_label = QStr ''Start Page''\<rparr>]"
  by (simp_all add: loaded_def initial_def)

lemma two_runs:
  "nextItem (resetReportWidget [resultI] loaded) = 4"
  "m_reportActions (resetReportWidget [resultI] loaded) 1 = Some (ProductsTable resultI ''top'')"
  "m_reportActions (resetReportWidget [resultI] loaded) 3 = Some (ImportanceTable resultI ''top'')"
  "m_reportActions (resetReportWidget [resultB] (resetReportWidget [resultI] loaded)) 5
     = Some (ProductsTable resultB ''top'')"
  "topLevelItems (reportTreeWidget (resetReportWidget [resultB] (resetReportWidget [resultI] loaded)))
     = [4]"
  "m_analysis (resetReportWidget [resultB] (resetReportWidget [resultI] loaded)) = Some [resultB]"
  "tabWidget (resetReportWidget [resultB] (resetReportWidget [resultI] loaded))
     = [\<lparr>tab_widget = StartPage, tab_label = QStr ''Start Page''\<rparr>]"
  by (simp_all add: example_runs loaded_window)

text \<open>
  C5. When every result has its fault tree analysis (the invariant of the data model), the
  report tree has one top-level item per result, and the children of the item of a result
  are, in this order: the products child, labelled with the number of products and
  registered with the product table action; if the result has a probability sub-result,
  the probability child, labelled with the total probability and with no action
  registered; if the result has an importance sub-result, the importance child, labelled
  with the number of records and registered with the importance table action.
\<close>

theorem summary_children_order:
  assumes "\<forall>r \<in> set analysis. fault_tree_analysis r \<noteq> None"
    and "k < length analysis"
    and "fault_tree_analysis (analysis ! k) = Some products"
  shows "length (topLevelItems (reportTreeWidget (resetReportWidget analysis st))) = length analysis \<and>
         reportChildren (resetReportWidget analysis st)
           (topLevelItems (reportTreeWidget (resetReportWidget analysis st)) ! k) =
           [(Some (QArg ''Products: %L1'' (ANat (length products))),
             Some (ProductsTable (analysis ! k) (fst (nameExtractor (res_id (analysis ! k))))))] @
           (case probability_analysis (analysis ! k) of
              None \<Rightarrow> []
            | Some p_total \<Rightarrow> [(Some (QArg ''Probability: %1'' (ADouble p_total)), None)]) @
           (case importance_analysis (analysis ! k) of
              None \<Rightarrow> []
            | Some records \<Rightarrow>
                [(Some (QArg ''Importance Factors: %L1'' (ANat (length records))),
                  Some (ImportanceTable (analysis ! k)
                          (fst (nameExtractor (res_id (analysis ! k))))))])"
proof -
  let ?st0 = "st\<lparr>reportTreeWidget := clear (reportTreeWidget st), m_reportActions := Map.empty,
      m_analysis := Some analysis\<rparr>"
  have top0: "topLevelItems (reportTreeWidget ?st0) = []" by (simp add: clear_def)
  from reportResults_topLevel [OF assms(1), of ?st0] top0
  have "length (topLevelItems (reportTreeWidget (reportResults analysis ?st0))) = length analysis"
    by auto
  moreover from reportResults_at [OF cleared_fresh [where st = st and x = "Some analysis"] assms] top0
  have "reportChildren (reportResults analysis ?st0)
      (topLevelItems (reportTreeWidget (reportResults analysis ?st0)) ! k)
      = summaries (analysis ! k) products"
    by simp
  ultimately show ?thesis
    by (simp add: resetReportWidget_def summaries_def)
qed

theorem summary_children_order_witness:
  "reportChildren (resetReportWidget [resultI, resultC] initial) 0 =
     [(Some (QArg ''Products: %L1'' (ANat 5)), Some (ProductsTable resultI ''top'')),
      (Some (QArg ''Probability: %1'' (ADouble (dbl 1))), None),
      (Some (QArg ''Importance Factors: %L1'' (ANat 2)), Some (ImportanceTable resultI ''top''))] \<and>
   reportChildren (resetReportWidget [resultI, resultC] initial) 4 =
     [(Some (QArg ''Products: %L1'' (ANat 5)), Some (ProductsTable resultC ''top''))]"
  using summary_children_order [of "[resultI, resultC]" 0 productsB initial]
    summary_children_order [of "[resultI, resultC]" 1 productsB initial]
  by (simp add: two_results_top example_fields resultI_fields productsB_values)


text \<open>
  C8. After a run, every item stored in the report tree and every registered report
  action was allocated by the rebuild of that run. After a second run every stored item,
  every top-level item and every registered action was allocated by the second rebuild,
  none by the first, and every registered action shows a result of the second analysis. A
  change of the model rebuilds the model tree (\<open>resetTreeWidget\<close>): in a window that has
  a model the rebuild is carried out, and it leaves the report tree and its registry
  empty, drops the analysis and closes the tabs.
\<close>

theorem rebuild_drops_registrations:
  "(let st1 = resetReportWidget analysis1 st; st2 = resetReportWidget analysis2 st1 in
      (\<forall>i. m_reportActions st1 i \<noteq> None \<or> tree_items (reportTreeWidget st1) i \<noteq> None
           \<longrightarrow> i < nextItem st1) \<and>
      (\<forall>i. m_reportActions st2 i \<noteq> None \<or> tree_items (reportTreeWidget st2) i \<noteq> None
           \<longrightarrow> nextItem st1 \<le> i \<and> i < nextItem st2) \<and>
      (\<forall>i \<in> set (topLevelItems (reportTreeWidget st2)). nextItem st1 \<le> i \<and> i < nextItem st2) \<and>
      (\<forall>i a. m_reportActions st2 i = Some a \<longrightarrow>
         (\<exists>r \<in> set analysis2. \<exists>name. a = ProductsTable r name \<or> a = ImportanceTable r name)) \<and>
      (\<forall>m. m_model st = Some m \<longrightarrow>
         (\<exists>st3. resetTreeWidget st2 = Inr st3 \<and>
            m_reportActions st3 = Map.empty \<and>
            topLevelItems (reportTreeWidget st3) = [] \<and>
            tree_items (reportTreeWidget st3) = Map.empty \<and>
            m_analysis st3 = None \<and> tabWidget st3 = [])))"
proof -
  define st1 where "st1 = resetReportWidget analysis1 st"
  define st2 where "st2 = resetReportWidget analysis2 st1"
  let ?c1 = "st\<lparr>reportTreeWidget := clear (reportTreeWidget st), m_reportActions := Map.empty,
      m_analysis := Some analysis1\<rparr>"
  let ?c2 = "st1\<lparr>reportTreeWidget := clear (reportTreeWidget st1), m_reportActions := Map.empty,
      m_analysis := Some analysis2\<rparr>"
  have s1: "st1 = reportResults analysis1 ?c1" by (simp add: st1_def resetReportWidget_def)
  have s2: "st2 = reportResults analysis2 ?c2" by (simp add: st2_def resetReportWidget_def)
  have f1: "fresh st1" unfolding s1 by (rule reportResults_fresh [OF cleared_fresh])
  have f2: "fresh st2" unfolding s2 by (rule reportResults_fresh [OF cleared_fresh])
  have a: "\<forall>i. m_reportActions st1 i \<noteq> None \<or> tree_items (reportTreeWidget st1) i \<noteq> None
      \<longrightarrow> i < nextItem st1"
    using f1 by (auto simp: fresh_def not_le [symmetric])
  have old: "tree_items (reportTreeWidget st2) i = None \<and> m_reportActions st2 i = None"
    if "i < nextItem st1" for i
    using reportResults_old [of i ?c2 analysis2] that unfolding s2 by (simp add: clear_def)
  have b: "\<forall>i. m_reportActions st2 i \<noteq> None \<or> tree_items (reportTreeWidget st2) i \<noteq> None
      \<longrightarrow> nextItem st1 \<le> i \<and> i < nextItem st2"
  proof (intro allI impI)
    fix i
    assume h: "m_reportActions st2 i \<noteq> None \<or> tree_items (reportTreeWidget st2) i \<noteq> None"
    with old [of i] have "\<not> i < nextItem st1" by auto
    moreover from f2 h have "\<not> nextItem st2 \<le> i" by (auto simp: fresh_def)
    ultimately show "nextItem st1 \<le> i \<and> i < nextItem st2" by simp
  qed
  have c: "\<forall>i \<in> set (topLevelItems (reportTreeWidget st2)). nextItem st1 \<le> i \<and> i < nextItem st2"
    using reportResults_topLevel_range [of analysis2 ?c2] unfolding s2
    by (auto simp: clear_def)
  have d: "\<forall>i a. m_reportActions st2 i = Some a \<longrightarrow>
      (\<exists>r \<in> set analysis2. \<exists>name. a = ProductsTable r name \<or> a = ImportanceTable r name)"
    using reportResults_actions [of analysis2 ?c2] unfolding s2 by auto
  have e: "\<forall>m. m_model st = Some m \<longrightarrow>
      (\<exists>st3. resetTreeWidget st2 = Inr st3 \<and>
         m_reportActions st3 = Map.empty \<and> topLevelItems (reportTreeWidget st3) = [] \<and>
         tree_items (reportTreeWidget st3) = Map.empty \<and> m_analysis st3 = None \<and>
         tabWidget st3 = [])"
  proof (intro allI impI)
    fix m
    assume "m_model st = Some m"
    then have "m_model st2 = Some m" by (simp add: st2_def st1_def resetReportWidget_model)
    then show "\<exists>st3. resetTreeWidget st2 = Inr st3 \<and>
         m_reportActions st3 = Map.empty \<and> topLevelItems (reportTreeWidget st3) = [] \<and>
         tree_items (reportTreeWidget st3) = Map.empty \<and> m_analysis st3 = None \<and>
         tabWidget st3 = []"
      by (simp add: resetTreeWidget_def Let_def addFaultTrees_report clear_def)
  qed
  from a b c d e show ?thesis
    unfolding Let_def st1_def [symmetric] st2_def [symmetric] by blast
qed

text \<open>
  Two runs in the window with the model of scenario A, then a change of the model: the
  two actions of the first run are gone after the second run, and the action, the item and
  the analysis of the second run and the open tab are gone after the change of the model.
\<close>

theorem rebuild_drops_registrations_witness:
  "m_reportActions (resetReportWidget [resultI] loaded) 1 = Some (ProductsTable resultI ''top'') \<and>
   m_reportActions (resetReportWidget [resultI] loaded) 3 = Some (ImportanceTable resultI ''top'') \<and>
   m_reportActions (resetReportWidget [resultB] (resetReportWidget [resultI] loaded)) 1 = None \<and>
   m_reportActions (resetReportWidget [resultB] (resetReportWidget [resultI] loaded)) 3 = None \<and>
   m_reportActions (resetReportWidget [resultB] (resetReportWidget [resultI] loaded)) 5
     = Some (ProductsTable resultB ''top'') \<and>
   topLevelItems (reportTreeWidget (resetReportWidget [resultB] (resetReportWidget [resultI] loaded)))
     = [4] \<and>
   m_analysis (resetReportWidget [resultB] (resetReportWidget [resultI] loaded)) = Some [resultB] \<and>
   tabWidget (resetReportWidget [resultB] (resetReportWidget [resultI] loaded)) \<noteq> [] \<and>
   (\<exists>st3. resetTreeWidget (resetReportWidget [resultB] (resetReportWidget [resultI] loaded))
        = Inr st3 \<and>
      m_reportActions st3 5 = None \<and> topLevelItems (reportTreeWidget st3) = [] \<and>
      tree_items (reportTreeWidget st3) 4 = None \<and> m_analysis st3 = None \<and> tabWidget st3 = [])"
proof -
  note t = rebuild_drops_registrations [of "[resultI]" loaded "[resultB]", unfolded Let_def]
  from t have new: "m_reportActions (resetReportWidget [resultB] (resetReportWidget [resultI] loaded)) i
      \<noteq> None \<Longrightarrow> nextItem (resetReportWidget [resultI] loaded) \<le> i" for i
    by blast
  from t have "\<forall>m. m_model loaded = Some m \<longrightarrow>
      (\<exists>st3. resetTreeWidget (resetReportWidget [resultB] (resetReportWidget [resultI] loaded))
           = Inr st3 \<and>
         m_reportActions st3 = Map.empty \<and> topLevelItems (reportTreeWidget st3) = [] \<and>
         tree_items (reportTreeWidget st3) = Map.empty \<and> m_analysis st3 = None \<and>
         tabWidget st3 = [])"
    by blast
  with loaded_window(6) have change:
    "\<exists>st3. resetTreeWidget (resetReportWidget [resultB] (resetReportWidget [resultI] loaded))
         = Inr st3 \<and>
       m_reportActions st3 5 = None \<and> topLevelItems (reportTreeWidget st3) = [] \<and>
       tree_items (reportTreeWidget st3) 4 = None \<and> m_analysis st3 = None \<and> tabWidget st3 = []"
    by fastforce
  from new [of 1] new [of 3] two_runs(1)
  have gone: "m_reportActions (resetReportWidget [resultB] (resetReportWidget [resultI] loaded)) 1 = None"
    "m_reportActions (resetReportWidget [resultB] (resetReportWidget [resultI] loaded)) 3 = None"
    by fastforce+
  from gone change two_runs show ?thesis by simp
qed

section \<open>The diagram builder: one node per gate\<close>

lemma reachable_child:
  "p \<in> reachable gs r \<Longrightarrow> c \<in> set (gate_children gs p) \<Longrightarrow> c \<in> reachable gs r"
  by (auto simp: reachable_def intro: rtrancl_into_rtrancl)

lemma relationships_mem:
  "(p, c) \<in> set (relationships gs xs) \<longleftrightarrow> p \<in> set xs \<and> c \<in> set (gate_children gs p)"
  by (auto simp: relationships_def)

lemma expanding_link:
  assumes inv: "expanding gs r ((parent, x) # pending) sc" and hit: "sc_transfer sc x = Some n"
  shows "expanding gs r pending (sc\<lparr>sc_links := sc_links sc @ [(parent, n)]\<rparr>)"
proof -
  from inv hit have n: "n < length (sc_nodes sc)" "sc_nodes sc ! n = x"
    by (auto simp: expanding_def)
  from inv have p: "parent < length (sc_nodes sc)" by (simp add: expanding_def)
  from inv n p show ?thesis
    by (simp add: expanding_def link_gates_def pending_gates_def)
qed

lemma expanding_new:
  assumes inv: "expanding gs r ((parent, x) # pending) sc" and miss: "sc_transfer sc x = None"
  shows "expanding gs r (map (Pair (length (sc_nodes sc))) (gate_children gs x) @ pending)
           (sc\<lparr>sc_nodes := sc_nodes sc @ [x],
               sc_transfer := (sc_transfer sc)(x \<mapsto> length (sc_nodes sc)),
               sc_links := sc_links sc @ [(parent, length (sc_nodes sc))]\<rparr>)"
    (is "expanding gs r ?pending ?sc")
proof -
  let ?ns = "sc_nodes sc"
  from inv have dist: "distinct ?ns"
    and tr: "\<And>y n. sc_transfer sc y = Some n \<longleftrightarrow> n < length ?ns \<and> ?ns ! n = y"
    and pb: "\<forall>(a, c) \<in> set pending. a < length ?ns" and par: "parent < length ?ns"
    and lb: "\<forall>(a, b) \<in> set (sc_links sc). a < length ?ns \<and> b < length ?ns"
    and ms: "mset (link_gates sc) + mset (pending_gates sc ((parent, x) # pending))
               = mset (relationships gs ?ns)"
    and rt: "r \<in> set ?ns" and sub: "set ?ns \<subseteq> reachable gs r"
    by (auto simp: expanding_def)
  have new: "x \<notin> set ?ns"
  proof
    assume "x \<in> set ?ns"
    then obtain n where "n < length ?ns" "?ns ! n = x" by (auto simp: in_set_conv_nth)
    with tr [of x n] miss show False by simp
  qed
  have "(?ns ! parent, x) \<in># mset (link_gates sc) + mset (pending_gates sc ((parent, x) # pending))"
    by (simp add: pending_gates_def)
  with ms have "(?ns ! parent, x) \<in> set (relationships gs ?ns)" by simp
  with sub have xr: "x \<in> reachable gs r"
    by (auto simp: relationships_mem intro: reachable_child)
  have links: "link_gates ?sc = link_gates sc @ [(?ns ! parent, x)]"
    using lb par by (auto simp: link_gates_def nth_append)
  have pend: "pending_gates ?sc ?pending
      = map (Pair x) (gate_children gs x) @ pending_gates sc pending"
    using pb by (auto simp: pending_gates_def nth_append comp_def)
  have rel: "relationships gs (?ns @ [x]) = relationships gs ?ns @ map (Pair x) (gate_children gs x)"
    by (simp add: relationships_def)
  have pg: "pending_gates sc ((parent, x) # pending) = (?ns ! parent, x) # pending_gates sc pending"
    by (simp add: pending_gates_def)
  have m: "mset (link_gates ?sc) + mset (pending_gates ?sc ?pending)
      = mset (relationships gs (sc_nodes ?sc))"
    using ms by (simp add: links pend rel pg)
  have t: "\<forall>y n. sc_transfer ?sc y = Some n \<longleftrightarrow> n < length (sc_nodes ?sc) \<and> sc_nodes ?sc ! n = y"
    using tr new by (auto simp: nth_append less_Suc_eq)
  have b1: "\<forall>(a, c) \<in> set ?pending. a < length (sc_nodes ?sc)"
    using pb by auto
  have b2: "\<forall>(a, b) \<in> set (sc_links ?sc). a < length (sc_nodes ?sc) \<and> b < length (sc_nodes ?sc)"
    using lb par by auto
  from dist new m t b1 b2 rt sub xr show ?thesis
    unfolding expanding_def by simp
qed

lemma expanding_expand:
  "expanding gs r pending sc \<Longrightarrow> expanding gs r [] (expand gs pending sc)"
proof (induction gs pending sc rule: expand.induct)
  case (1 gs sc)
  then show ?case by simp
next
  case (2 gs parent x pending sc)
  show ?case
  proof (cases "sc_transfer sc x")
    case None
    with 2 expanding_new [OF "2.prems" None] show ?thesis by simp
  next
    case (Some n)
    with 2 expanding_link [OF "2.prems" Some] show ?thesis by simp
  qed
qed

lemma expanding_build_start:
  "expanding gs r (map (Pair 0) (gate_children gs r))
     \<lparr>sc_nodes = [r], sc_links = [], sc_transfer = [r \<mapsto> 0]\<rparr>"
  by (auto simp: expanding_def link_gates_def pending_gates_def relationships_def reachable_def
      comp_def)

lemma expanding_build: "expanding gs r [] (build gs r)"
  unfolding build_def by (rule expanding_expand [OF expanding_build_start])

lemma gate_children_args:
  assumes "c \<in> set (gate_children gs x)"
  shows "\<exists>g \<in> set gs. c \<in> set (gate_args g)"
proof (cases "find (\<lambda>g. gate_id g = x) gs")
  case None
  with assms show ?thesis by (simp add: gate_children_def)
next
  case (Some g)
  then have "g \<in> set gs" by (auto simp: find_Some_iff)
  with Some assms show ?thesis by (auto simp: gate_children_def)
qed

lemma reachable_cases:
  "y \<in> reachable gs r \<Longrightarrow> y = r \<or> (\<exists>p. y \<in> set (gate_children gs p))"
  by (auto simp: reachable_def elim: rtranclE)

lemma parentless_unreachable:
  "parentless gs y \<Longrightarrow> y \<noteq> r \<Longrightarrow> y \<notin> reachable gs r"
  by (auto simp: parentless_def list_all_iff dest!: reachable_cases gate_children_args)

lemma build_nodes: "distinct (sc_nodes (build gs r))" "set (sc_nodes (build gs r)) = reachable gs r"
proof -
  let ?sc = "build gs r"
  from expanding_build [of gs r]
  have dist: "distinct (sc_nodes ?sc)"
    and lb: "\<forall>(a, b) \<in> set (sc_links ?sc). a < length (sc_nodes ?sc) \<and> b < length (sc_nodes ?sc)"
    and ms: "mset (link_gates ?sc) = mset (relationships gs (sc_nodes ?sc))"
    and rt: "r \<in> set (sc_nodes ?sc)" and sub: "set (sc_nodes ?sc) \<subseteq> reachable gs r"
    by (auto simp: expanding_def pending_gates_def)
  show "distinct (sc_nodes ?sc)" by (rule dist)
  have closed: "c \<in> set (sc_nodes ?sc)"
    if "p \<in> set (sc_nodes ?sc)" and "c \<in> set (gate_children gs p)" for p c
  proof -
    from that have "(p, c) \<in> set (relationships gs (sc_nodes ?sc))"
      by (simp add: relationships_mem)
    with ms have "(p, c) \<in> set (link_gates ?sc)" by (metis set_mset_mset)
    then obtain a b where "(a, b) \<in> set (sc_links ?sc)" "c = sc_nodes ?sc ! b"
      by (auto simp: link_gates_def)
    with lb show ?thesis by auto
  qed
  have "y \<in> set (sc_nodes ?sc)" if "(r, y) \<in> {(x, c). c \<in> set (gate_children gs x)}\<^sup>*" for y
    using that by (induction rule: rtrancl_induct) (auto intro: rt closed)
  with sub show "set (sc_nodes ?sc) = reachable gs r"
    by (auto simp: reachable_def)
qed

lemma build_links: "mset (link_gates (build gs r)) = mset (relationships gs (sc_nodes (build gs r)))"
  using expanding_build [of gs r] by (simp add: expanding_def pending_gates_def)

lemma build_transfer:
  "sc_transfer (build gs r) x = Some n \<longleftrightarrow>
     n < length (sc_nodes (build gs r)) \<and> sc_nodes (build gs r) ! n = x"
  using expanding_build [of gs r] by (simp add: expanding_def)

lemma length_relationships:
  "length (relationships gs xs) = sum_list (map (\<lambda>x. length (gate_children gs x)) xs)"
  by (simp add: relationships_def length_concat comp_def)

lemma incoming_relationships:
  "length (filter (\<lambda>(p, c). c = y) (relationships gs xs))
     = sum_list (map (\<lambda>x. length (filter (\<lambda>c. c = y) (gate_children gs x))) xs)"
  by (induction xs) (simp_all add: relationships_def filter_map comp_def)

lemma build_shared:
  "sc_nodes (build shared ''top'') = [''top'', ''a'', ''c'', ''b'']"
  "sc_links (build shared ''top'') = [(0, 1), (1, 2), (0, 3), (3, 2), (0, 2)]"
  by (simp_all add: build_def shared_def gate_children_def)

lemma build_scenarioA:
  "sc_nodes (build (gates scenarioA) ''root'') = [''root'', ''a'', ''b'']"
  "sc_links (build (gates scenarioA) ''root'') = [(0, 1), (0, 2)]"
  "parentless (gates scenarioA) ''second''"
  by (simp_all add: build_def scenarioA_def gate_children_def parentless_def)

lemma addFaultTrees_fields:
  "nextItem (addFaultTrees w fts st) = nextItem st + length fts"
  "m_model (addFaultTrees w fts st) = m_model st"
  by (induction fts arbitrary: st; simp add: Let_def)+

lemma addFaultTrees_old:
  "i < nextItem st \<Longrightarrow> m_treeActions (addFaultTrees w fts st) i = m_treeActions st i"
  by (induction fts arbitrary: st) (simp_all add: Let_def emplace_def split: option.splits)

lemma addFaultTrees_old_items:
  "i < nextItem st \<Longrightarrow> i \<noteq> w \<Longrightarrow>
   tree_items (treeWidget (addFaultTrees w fts st)) i = tree_items (treeWidget st) i"
  by (induction fts arbitrary: st)
    (simp_all add: Let_def addChild_def newTreeItem_def split: option.splits)

lemma addFaultTrees_registers:
  assumes "\<forall>i \<ge> nextItem st. m_treeActions st i = None" and "k < length fts"
    and "w < nextItem st" and "tree_items (treeWidget st) w \<noteq> None"
  shows "m_treeActions (addFaultTrees w fts st) (nextItem st + k) = Some (FaultTreeDiagram (fts ! k)) \<and>
         map_option item_text (tree_items (treeWidget (addFaultTrees w fts st)) (nextItem st + k))
           = Some (QStr (ft_name (fts ! k)))"
  using assms
proof (induction fts arbitrary: st k)
  case Nil
  then show ?case by simp
next
  case (Cons faultTree rest)
  let ?st1 = "st\<lparr>nextItem := Suc (nextItem st),
      treeWidget := addChild w (nextItem st)
        (newTreeItem (QStr (ft_name faultTree)) (nextItem st) (treeWidget st)),
      m_treeActions := emplace (nextItem st) (FaultTreeDiagram faultTree) (m_treeActions st)\<rparr>"
  have step: "addFaultTrees w (faultTree # rest) st = addFaultTrees w rest ?st1"
    by (simp add: Let_def)
  from Cons.prems have wn: "w \<noteq> nextItem st" by simp
  from Cons.prems obtain it where it: "tree_items (treeWidget st) w = Some it" by auto
  show ?case
  proof (cases k)
    case 0
    have "m_treeActions ?st1 (nextItem st) = Some (FaultTreeDiagram faultTree)"
      using Cons.prems(1) by (simp add: emplace_def)
    moreover have "map_option item_text (tree_items (treeWidget ?st1) (nextItem st))
        = Some (QStr (ft_name faultTree))"
      using wn it by (simp add: addChild_def newTreeItem_def)
    ultimately show ?thesis
      using 0 wn Cons.prems(3) unfolding step
      by (simp add: addFaultTrees_old addFaultTrees_old_items)
  next
    case (Suc j)
    have f: "\<forall>i \<ge> nextItem ?st1. m_treeActions ?st1 i = None"
      using Cons.prems(1) by (simp add: emplace_def)
    have t: "tree_items (treeWidget ?st1) w \<noteq> None"
      using wn it by (simp add: addChild_def newTreeItem_def)
    from Cons.IH [OF f _ _ t, of j] Cons.prems Suc show ?thesis
      unfolding step by simp
  qed
qed

lemma resetTreeWidget_registers:
  assumes "m_model st0 = Some m" and "k < length (fault_trees m)"
  shows "\<exists>st. resetTreeWidget st0 = Inr st \<and> m_model st = Some m \<and>
           m_treeActions st (Suc (nextItem st0) + k) = Some (FaultTreeDiagram (fault_trees m ! k)) \<and>
           map_option item_text (tree_items (treeWidget st) (Suc (nextItem st0) + k))
             = Some (QStr (ft_name (fault_trees m ! k)))"
proof -
  let ?st1 = "st0\<lparr>tabWidget := [], currentIndex := - 1,
      reportTreeWidget := clear (reportTreeWidget st0), m_reportActions := Map.empty,
      m_analysis := None, m_treeActions := Map.empty,
      treeWidget := (clear (treeWidget st0))\<lparr>headerLabel := QArg ''Model: %1'' (AStr (mdl_name m))\<rparr>\<rparr>"
  let ?st2 = "?st1\<lparr>nextItem := Suc (nextItem ?st1),
      treeWidget := newTreeItem (QStr ''Fault Trees'') (nextItem ?st1) (treeWidget ?st1)\<rparr>"
  let ?st3 = "addFaultTrees (nextItem st0) (fault_trees m) ?st2"
  have reg: "m_treeActions ?st3 (nextItem ?st2 + k) = Some (FaultTreeDiagram (fault_trees m ! k)) \<and>
      map_option item_text (tree_items (treeWidget ?st3) (nextItem ?st2 + k))
        = Some (QStr (ft_name (fault_trees m ! k)))"
    using assms addFaultTrees_registers [of ?st2 k "fault_trees m" "nextItem st0"]
    by (simp add: newTreeItem_def)
  have n3: "nextItem ?st3 = Suc (nextItem st0) + length (fault_trees m)"
    by (simp add: addFaultTrees_fields)
  from assms reg n3 show ?thesis
    by (simp add: resetTreeWidget_def Let_def addFaultTrees_fields emplace_def addChild_def
        newTreeItem_def addTopLevelItem_def split: option.splits)
qed

lemma scenarioA_fields:
  "fault_trees scenarioA = [\<lparr>ft_name = ''FT'',
      top_events = [Gate ''root'' [''a'', ''b''], Gate ''second'' [''b'']]\<rparr>]"
  by (simp add: scenarioA_def)

text \<open>
  C1. The diagram built for a root gate has exactly one visual node for each gate
  reachable from the root, however many parents refer to the gate: the nodes are distinct,
  their gates are the reachable gates, and the transfer map sends each of these gates to
  its node. The links, read as pairs of gates, are the parent-child relationships of the
  reachable gates, one link for each reference: their number is the number of references,
  and the links into the node of a gate are as many as the references to that gate. The
  gate table is a finite list; the statement needs no assumption on cycles, since a gate
  enters the transfer map before its children are visited.
\<close>

theorem one_node_per_gate:
  "distinct (sc_nodes (build gs r)) \<and>
   set (sc_nodes (build gs r)) = reachable gs r \<and>
   length (sc_nodes (build gs r)) = card (reachable gs r) \<and>
   (\<forall>x n. sc_transfer (build gs r) x = Some n \<longleftrightarrow>
      n < length (sc_nodes (build gs r)) \<and> sc_nodes (build gs r) ! n = x) \<and>
   mset (link_gates (build gs r)) = mset (relationships gs (sc_nodes (build gs r))) \<and>
   length (sc_links (build gs r)) = (\<Sum>x \<in> reachable gs r. length (gate_children gs x)) \<and>
   (\<forall>y. length (filter (\<lambda>(p, c). c = y) (link_gates (build gs r)))
      = (\<Sum>x \<in> reachable gs r. length (filter (\<lambda>c. c = y) (gate_children gs x))))"
proof -
  let ?sc = "build gs r"
  note nodes = build_nodes [of gs r]
  have card: "length (sc_nodes ?sc) = card (reachable gs r)"
    using nodes by (metis distinct_card)
  have "length (sc_links ?sc) = length (link_gates ?sc)" by (simp add: link_gates_def)
  also have "\<dots> = length (relationships gs (sc_nodes ?sc))"
    using build_links [of gs r] by (metis size_mset)
  also have "\<dots> = (\<Sum>x \<in> reachable gs r. length (gate_children gs x))"
    using nodes by (simp add: length_relationships sum_list_distinct_conv_sum_set)
  finally have total: "length (sc_links ?sc) = (\<Sum>x \<in> reachable gs r. length (gate_children gs x))" .
  have incoming: "length (filter (\<lambda>(p, c). c = y) (link_gates ?sc))
      = (\<Sum>x \<in> reachable gs r. length (filter (\<lambda>c. c = y) (gate_children gs x)))" for y
  proof -
    have "length (filter (\<lambda>(p, c). c = y) (link_gates ?sc))
        = size (filter_mset (\<lambda>(p, c). c = y) (mset (link_gates ?sc)))"
      by (metis mset_filter size_mset)
    also have "\<dots> = length (filter (\<lambda>(p, c). c = y) (relationships gs (sc_nodes ?sc)))"
      unfolding build_links by (metis mset_filter size_mset)
    also have "\<dots> = (\<Sum>x \<in> reachable gs r. length (filter (\<lambda>c. c = y) (gate_children gs x)))"
      using nodes by (simp add: incoming_relationships sum_list_distinct_conv_sum_set)
    finally show ?thesis .
  qed
  from nodes card build_transfer [of gs r] build_links [of gs r] total incoming
  show ?thesis by blast
qed

theorem one_node_per_gate_witness:
  "sc_nodes (build shared ''top'') = [''top'', ''a'', ''c'', ''b''] \<and>
   reachable shared ''top'' = {''top'', ''a'', ''c'', ''b''} \<and>
   card (reachable shared ''top'') = 4 \<and>
   sc_links (build shared ''top'') = [(0, 1), (1, 2), (0, 3), (3, 2), (0, 2)] \<and>
   (\<Sum>x \<in> reachable shared ''top''. length (gate_children shared x)) = 5"
proof -
  note t = one_node_per_gate [of shared "''top''"]
  from t [THEN conjunct2, THEN conjunct1]
  have r: "reachable shared ''top'' = {''top'', ''a'', ''c'', ''b''}"
    by (simp add: build_shared)
  from t [THEN conjunct2, THEN conjunct2, THEN conjunct1]
  have c: "card (reachable shared ''top'') = 4"
    by (simp add: build_shared)
  from t [THEN conjunct2, THEN conjunct2, THEN conjunct2, THEN conjunct2, THEN conjunct2,
      THEN conjunct1]
  have s: "(\<Sum>x \<in> reachable shared ''top''. length (gate_children shared x)) = 5"
    by (simp add: build_shared)
  from r c s show ?thesis by (simp add: build_shared)
qed

text \<open>
  C10. After the model tree is rebuilt, the item of each fault tree of the model is
  registered with the diagram action of that fault tree. Activating an item registered
  with the diagram action of a fault tree shows the diagram built from the first of the
  top-level gates of the fault tree: the gates shown are the gates reachable from that
  first gate, so a further top-level gate of the fault tree (a gate that no gate has as
  an argument) is not shown.
\<close>

theorem diagram_from_first_top_gate:
  "(m_model st0 = Some m \<and> k < length (fault_trees m) \<longrightarrow>
      (\<exists>st. resetTreeWidget st0 = Inr st \<and> m_model st = Some m \<and>
         map_option item_text (tree_items (treeWidget st) (Suc (nextItem st0) + k))
           = Some (QStr (ft_name (fault_trees m ! k))) \<and>
         m_treeActions st (Suc (nextItem st0) + k)
           = Some (FaultTreeDiagram (fault_trees m ! k)))) \<and>
   (m_treeActions st i = Some (FaultTreeDiagram faultTree) \<and> m_model st = Some m \<and>
    top_events faultTree = front # others \<longrightarrow>
      (\<exists>st'. treeItemActivated i st = Inr st' \<and>
         currentWidget st' = Some (DiagramView (build (gates m) (gate_id front))) \<and>
         set (sc_nodes (build (gates m) (gate_id front))) = reachable (gates m) (gate_id front) \<and>
         (\<forall>t \<in> set others. gate_id t \<noteq> gate_id front \<and> parentless (gates m) (gate_id t) \<longrightarrow>
            gate_id t \<notin> set (sc_nodes (build (gates m) (gate_id front))))))"
proof (intro conjI impI)
  assume "m_model st0 = Some m \<and> k < length (fault_trees m)"
  with resetTreeWidget_registers [of st0 m k]
  show "\<exists>st. resetTreeWidget st0 = Inr st \<and> m_model st = Some m \<and>
         map_option item_text (tree_items (treeWidget st) (Suc (nextItem st0) + k))
           = Some (QStr (ft_name (fault_trees m ! k))) \<and>
         m_treeActions st (Suc (nextItem st0) + k)
           = Some (FaultTreeDiagram (fault_trees m ! k))"
    by auto
next
  assume a: "m_treeActions st i = Some (FaultTreeDiagram faultTree) \<and> m_model st = Some m \<and>
    top_events faultTree = front # others"
  show "\<exists>st'. treeItemActivated i st = Inr st' \<and>
         currentWidget st' = Some (DiagramView (build (gates m) (gate_id front))) \<and>
         set (sc_nodes (build (gates m) (gate_id front))) = reachable (gates m) (gate_id front) \<and>
         (\<forall>t \<in> set others. gate_id t \<noteq> gate_id front \<and> parentless (gates m) (gate_id t) \<longrightarrow>
            gate_id t \<notin> set (sc_nodes (build (gates m) (gate_id front))))"
  proof (intro exI conjI)
    show "treeItemActivated i st =
        Inr (showTab (DiagramView (build (gates m) (gate_id front)))
               (QArg ''Fault Tree: %1'' (AStr (ft_name faultTree))) st)"
      using a by (simp add: treeItemActivated_def)
    show "currentWidget (showTab (DiagramView (build (gates m) (gate_id front)))
        (QArg ''Fault Tree: %1'' (AStr (ft_name faultTree))) st)
        = Some (DiagramView (build (gates m) (gate_id front)))"
      by simp
    show "set (sc_nodes (build (gates m) (gate_id front))) = reachable (gates m) (gate_id front)"
      by (rule build_nodes)
    show "\<forall>t \<in> set others. gate_id t \<noteq> gate_id front \<and> parentless (gates m) (gate_id t) \<longrightarrow>
        gate_id t \<notin> set (sc_nodes (build (gates m) (gate_id front)))"
      by (auto simp: build_nodes dest: parentless_unreachable)
  qed
qed

theorem diagram_from_first_top_gate_witness:
  "\<exists>st st'. resetTreeWidget (initial\<lparr>m_model := Some scenarioA\<rparr>) = Inr st \<and>
     map_option item_text (tree_items (treeWidget st) 1) = Some (QStr ''FT'') \<and>
     treeItemActivated 1 st = Inr st' \<and>
     currentWidget st' = Some (DiagramView (build (gates scenarioA) ''root'')) \<and>
     sc_nodes (build (gates scenarioA) ''root'') = [''root'', ''a'', ''b''] \<and>
     reachable (gates scenarioA) ''root'' = {''root'', ''a'', ''b''} \<and>
     ''second'' \<notin> set (sc_nodes (build (gates scenarioA) ''root''))"
proof -
  from diagram_from_first_top_gate [where ?st0.0 = "initial\<lparr>m_model := Some scenarioA\<rparr>"
      and m = scenarioA and k = 0, THEN conjunct1]
  obtain st where st: "resetTreeWidget (initial\<lparr>m_model := Some scenarioA\<rparr>) = Inr st"
    "m_model st = Some scenarioA"
    "map_option item_text (tree_items (treeWidget st) 1) = Some (QStr ''FT'')"
    "m_treeActions st 1 = Some (FaultTreeDiagram \<lparr>ft_name = ''FT'',
        top_events = [Gate ''root'' [''a'', ''b''], Gate ''second'' [''b'']]\<rparr>)"
    by (auto simp: scenarioA_fields initial_window)
  from diagram_from_first_top_gate [where st = st and i = 1 and m = scenarioA
      and faultTree = "\<lparr>ft_name = ''FT'',
        top_events = [Gate ''root'' [''a'', ''b''], Gate ''second'' [''b'']]\<rparr>"
      and front = "Gate ''root'' [''a'', ''b'']" and others = "[Gate ''second'' [''b'']]",
      THEN conjunct2] st(2,4) build_scenarioA(3)
  obtain st' where "treeItemActivated 1 st = Inr st'"
    "currentWidget st' = Some (DiagramView (build (gates scenarioA) ''root''))"
    "reachable (gates scenarioA) ''root'' = {''root'', ''a'', ''b''}"
    "''second'' \<notin> set (sc_nodes (build (gates scenarioA) ''root''))"
    by (auto simp: build_scenarioA(1))
  with st show ?thesis by (auto simp: build_scenarioA(1))
qed

end
